theory Spec2Isabelle
  imports Complex_Main "HOL-Library.Sublist"
begin

section \<open>Python strings and slices\<close>

text \<open>
  A Python \<open>str\<close> is modelled as a \<open>string\<close>; a \<open>char\<close> stands for one code point of
  the Latin-1 range. \<open>is_space\<close> is \<open>str.isspace\<close> on that range, which is what
  \<open>str.strip()\<close> without argument removes.
\<close>

definition is_space :: "char \<Rightarrow> bool" where
  "is_space c = (let n = (of_char c :: nat) in
     (9 \<le> n \<and> n \<le> 13) \<or> (28 \<le> n \<and> n \<le> 32) \<or> n = 133 \<or> n = 160)"

definition strip :: "string \<Rightarrow> string" where
  "strip s = rev (dropWhile is_space (rev (dropWhile is_space s)))"

text \<open>
  \<open>xs[i:j]\<close> of Python for integers \<open>i\<close>, \<open>j\<close>: a negative bound counts from the end,
  both bounds are clamped to the list, and an empty range gives the empty list.
\<close>

definition py_bound :: "nat \<Rightarrow> int \<Rightarrow> nat" where
  "py_bound n i = (if i < 0 then nat (max 0 (int n + i)) else min n (nat i))"

definition py_slice :: "'a list \<Rightarrow> int \<Rightarrow> int \<Rightarrow> 'a list" where
  "py_slice xs i j =
     (let a = py_bound (length xs) i; b = py_bound (length xs) j
      in take (b - a) (drop a xs))"

text \<open>\<open>str(n)\<close> of a Python integer, as the f-string of \<open>chunk_id\<close> formats it.\<close>

fun str_nat :: "nat \<Rightarrow> string" where
  "str_nat n = (if n < 10 then [char_of (48 + n)]
                else str_nat (n div 10) @ [char_of (48 + n mod 10)])"

declare str_nat.simps [simp del]

definition str_int :: "int \<Rightarrow> string" where
  "str_int i = (if i < 0 then CHR ''-'' # str_nat (nat (- i)) else str_nat (nat i))"

section \<open>The chunker: \<open>PDFProcessor._split_text_with_page\<close>\<close>

text \<open>
  A chunk is the dictionary \<open>{'text': ..., 'metadata': {...}}\<close> that the chunker builds;
  every key is always present. The field for \<open>'text'\<close> is called \<open>chunk_text\<close>.
\<close>

record chunk_metadata =
  chunk_id :: string
  page_number :: int
  document_id :: string
  total_pages :: int
  chunk_index :: int

record chunk =
  chunk_text :: string
  metadata :: chunk_metadata

definition make_chunk :: "string \<Rightarrow> int \<Rightarrow> string \<Rightarrow> int \<Rightarrow> int \<Rightarrow> chunk" where
  "make_chunk window page_num doc_id n_pages idx =
     \<lparr> chunk_text = strip window,
       metadata = \<lparr> chunk_id = doc_id @ ''_page'' @ str_int page_num @ ''_chunk'' @ str_int idx,
                    page_number = page_num,
                    document_id = doc_id,
                    total_pages = n_pages,
                    chunk_index = idx \<rparr> \<rparr>"

text \<open>
  The \<open>while start < len(text)\<close> loop. The state of the loop is \<open>start\<close>,
  \<open>chunk_index\<close> and the list \<open>chunks\<close>. The loop does not end for every
  \<open>chunk_size\<close> and \<open>chunk_overlap\<close> (with \<open>chunk_size \<le> chunk_overlap\<close> the start
  never passes the end of a long text), so the result is an option and \<open>None\<close> stands
  for a run that never returns.
\<close>

partial_function (option) split_loop ::
  "int \<Rightarrow> int \<Rightarrow> string \<Rightarrow> int \<Rightarrow> string \<Rightarrow> int \<Rightarrow> int \<Rightarrow> int \<Rightarrow> chunk list \<Rightarrow> chunk list option"
where
  "split_loop chunk_size chunk_overlap ptext page_num doc_id n_pages start idx chunks =
     (if start < int (length ptext) then
        (let stop = start + chunk_size;
             window = py_slice ptext start stop;
             chunks' = (if strip window \<noteq> [] then chunks @ [make_chunk window page_num doc_id n_pages idx]
                        else chunks);
             idx' = (if strip window \<noteq> [] then idx + 1 else idx);
             start' = (if stop < int (length ptext) then stop - chunk_overlap else stop)
         in split_loop chunk_size chunk_overlap ptext page_num doc_id n_pages start' idx' chunks')
      else Some chunks)"

declare split_loop.simps [code]

definition split_text_with_page ::
  "int \<Rightarrow> int \<Rightarrow> string \<Rightarrow> int \<Rightarrow> string \<Rightarrow> int \<Rightarrow> chunk list option" where
  "split_text_with_page chunk_size chunk_overlap ptext page_num doc_id n_pages =
     split_loop chunk_size chunk_overlap ptext page_num doc_id n_pages 0 0 []"

text \<open>
  The windows as the specification describes them, for the comparison with the loop: a
  window of \<open>chunkSize\<close> characters, the next one starting at the previous end minus the
  overlap, the last one being the first that reaches the end of the text. The
  specification's precondition \<open>overlap < chunkSize\<close> is part of the definition. Each
  window is returned with its offset.
\<close>

function spec_windows :: "nat \<Rightarrow> nat \<Rightarrow> string \<Rightarrow> nat \<Rightarrow> (nat \<times> string) list" where
  "spec_windows csize overlap ptext start =
     (if start < length ptext \<and> overlap < csize then
        (start, take csize (drop start ptext)) #
          (if start + csize < length ptext then spec_windows csize overlap ptext (start + csize - overlap)
           else [])
      else [])"
  by pat_completeness auto
termination
  by (relation "measure (\<lambda>(csize, overlap, ptext, start). length ptext - start)") auto

declare spec_windows.simps [simp del]

text \<open>The chunks of a list of windows: blank windows dropped, the others numbered from \<open>idx\<close>.\<close>

fun number_chunks :: "int \<Rightarrow> string \<Rightarrow> int \<Rightarrow> int \<Rightarrow> string list \<Rightarrow> chunk list" where
  "number_chunks page_num doc_id n_pages idx [] = []"
| "number_chunks page_num doc_id n_pages idx (w # ws) =
     (if strip w \<noteq> [] then make_chunk w page_num doc_id n_pages idx #
                              number_chunks page_num doc_id n_pages (idx + 1) ws
      else number_chunks page_num doc_id n_pages idx ws)"

section \<open>The data model: \<open>app/models/schemas.py\<close>\<close>

datatype stance = PLAINTIFF | DEFENDANT | AMICUS | FOR | AGAINST | NEUTRAL | UNKNOWN

datatype argument_category =
  STATUTORY | REGULATORY | CONSTITUTIONAL | CASE_LAW | PROCEDURAL | POLICY | OTHER

text \<open>
  \<open>ExtractedPoint\<close> and its subclass \<open>FinalKeyPoint\<close>. An \<open>Optional\<close> field is an
  option, a Python \<open>float\<close> is a real number (rounding and NaN are outside the model) and
  a Python \<open>int\<close> is an integer.
\<close>

record extracted_point =
  summary :: string
  importance :: "string option"
  importance_score :: real
  stance :: stance
  supporting_quote :: "string option"
  legal_concepts :: "string list"
  page_start :: "int option"
  page_end :: "int option"
  line_start :: "int option"
  line_end :: "int option"
  category :: "argument_category option"
  retrieval_score :: "real option"
  combined_score :: "real option"

record final_key_point = extracted_point +
  final_rank :: int

text \<open>
  The exceptions of the program. \<open>LibraryError\<close> stands for any exception that a
  library outside the repository raises (faiss, sentence-transformers, pdfplumber).
\<close>

datatype error =
  ValidationError | RuntimeError | ValueError | FileNotFoundError | LibraryError

text \<open>
  The field constraints that pydantic checks when a model is constructed:
  \<open>min_length=5\<close> on \<open>summary\<close>, \<open>ge\<close>/\<open>le\<close> bounds on the numbers. Assigning to a
  field of an existing object is not validated.
\<close>

definition ge_opt :: "'a::linorder \<Rightarrow> 'a option \<Rightarrow> bool" where
  "ge_opt lo v = (case v of None \<Rightarrow> True | Some x \<Rightarrow> lo \<le> x)"

definition valid_extracted_point :: "'a extracted_point_scheme \<Rightarrow> bool" where
  "valid_extracted_point p \<longleftrightarrow>
     5 \<le> length (summary p) \<and>
     0 \<le> importance_score p \<and> importance_score p \<le> 1 \<and>
     ge_opt 1 (page_start p) \<and> ge_opt 1 (page_end p) \<and>
     ge_opt 0 (retrieval_score p) \<and> ge_opt 0 (combined_score p)"

definition FinalKeyPoint :: "final_key_point \<Rightarrow> error + final_key_point" where
  "FinalKeyPoint f =
     (if valid_extracted_point f \<and> 1 \<le> final_rank f then Inr f else Inl ValidationError)"

section \<open>The reconciler and ranker: \<open>PostProcessor\<close>\<close>

text \<open>\<open>str.lower()\<close> on the Latin-1 range.\<close>

definition lower_char :: "char \<Rightarrow> char" where
  "lower_char c = (let n = (of_char c :: nat) in
     if (65 \<le> n \<and> n \<le> 90) \<or> (192 \<le> n \<and> n \<le> 222 \<and> n \<noteq> 215) then char_of (n + 32) else c)"

definition lower :: "string \<Rightarrow> string" where
  "lower s = map lower_char s"

text \<open>
  \<open>fuzz.token_set_ratio\<close> belongs to the library rapidfuzz, not to the repository. The
  model takes it as the parameter \<open>tsr\<close>, a function from two strings to a number that
  the caller divides by 100.

  The \<open>for chunk in candidate_chunks\<close> loop keeps the first chunk with the highest
  score: a later chunk replaces the best one only with a strictly higher score.
\<close>

fun best_match_loop ::
  "(string \<Rightarrow> string \<Rightarrow> real) \<Rightarrow> string \<Rightarrow> chunk list \<Rightarrow> chunk option \<Rightarrow> real \<Rightarrow> chunk option \<times> real"
where
  "best_match_loop tsr quote [] best_match best_score = (best_match, best_score)"
| "best_match_loop tsr quote (c # cs) best_match best_score =
     (let score = tsr (lower quote) (lower (chunk_text c)) / 100
      in if score > best_score then best_match_loop tsr quote cs (Some c) score
         else best_match_loop tsr quote cs best_match best_score)"

text \<open>
  \<open>if expected_page:\<close> is false for \<open>None\<close> and for \<open>0\<close>. With a page given, the
  candidates are the chunks of that page, or all chunks when that page has none.
\<close>

definition candidate_chunks :: "chunk list \<Rightarrow> int option \<Rightarrow> chunk list" where
  "candidate_chunks chunks expected_page =
     (if expected_page \<noteq> None \<and> expected_page \<noteq> Some 0 then
        (let on_page = filter (\<lambda>c. Some (page_number (metadata c)) = expected_page) chunks
         in if on_page = [] then chunks else on_page)
      else chunks)"

definition find_best_matching_chunk ::
  "(string \<Rightarrow> string \<Rightarrow> real) \<Rightarrow> string \<Rightarrow> chunk list \<Rightarrow> int option \<Rightarrow> chunk option \<times> real"
where
  "find_best_matching_chunk tsr quote chunks expected_page =
     (if quote = [] \<or> chunks = [] then (None, 0)
      else best_match_loop tsr quote (candidate_chunks chunks expected_page) None 0)"

text \<open>
  \<open>x or 0.5\<close> on an optional float: Python takes the default when \<open>x\<close> is \<open>None\<close> and
  also when \<open>x\<close> is \<open>0.0\<close>, since both are false. \<open>s or t\<close> on an optional string takes
  \<open>t\<close> when \<open>s\<close> is \<open>None\<close> or empty.
\<close>

definition float_or :: "real option \<Rightarrow> real \<Rightarrow> real" where
  "float_or x d = (case x of None \<Rightarrow> d | Some v \<Rightarrow> if v = 0 then d else v)"

definition str_or :: "string option \<Rightarrow> string \<Rightarrow> string" where
  "str_or s t = (case s of None \<Rightarrow> t | Some q \<Rightarrow> if q = [] then t else q)"

text \<open>
  The body of the \<open>for point in extracted_points\<close> loop, up to the arguments of the
  \<open>FinalKeyPoint\<close> constructor. The page written back to \<open>point.page_start\<close> is the one
  passed on as \<open>page_start\<close>.
\<close>

definition final_point_fields ::
  "(string \<Rightarrow> string \<Rightarrow> real) \<Rightarrow> chunk list \<Rightarrow> extracted_point \<Rightarrow> final_key_point" where
  "final_point_fields tsr chunks point =
     (let retrieval = float_or (retrieval_score point) 0.5;
          importance_sc = float_or (Some (importance_score point)) 0.5;
          quote = str_or (supporting_quote point) (summary point);
          found = find_best_matching_chunk tsr quote chunks (page_start point);
          page = (case fst found of Some best_chunk \<Rightarrow> Some (page_number (metadata best_chunk))
                  | None \<Rightarrow> page_start point);
          combined = 0.5 * importance_sc + 0.3 * retrieval + 0.2 * snd found
      in \<lparr> summary = summary point,
           importance = importance point,
           importance_score = importance_sc,
           stance = stance point,
           supporting_quote = Some quote,
           legal_concepts = legal_concepts point,
           page_start = page,
           page_end = page_end point,
           line_start = line_start point,
           line_end = line_end point,
           category = category point,
           retrieval_score = Some retrieval,
           combined_score = Some combined,
           final_rank = 1 \<rparr>)"

fun final_points_loop ::
  "(string \<Rightarrow> string \<Rightarrow> real) \<Rightarrow> chunk list \<Rightarrow> extracted_point list \<Rightarrow> final_key_point list
     \<Rightarrow> error + final_key_point list"
where
  "final_points_loop tsr chunks [] final_points = Inr final_points"
| "final_points_loop tsr chunks (point # points) final_points =
     (case FinalKeyPoint (final_point_fields tsr chunks point) of
        Inl e \<Rightarrow> Inl e
      | Inr final_point \<Rightarrow> final_points_loop tsr chunks points (final_points @ [final_point]))"

text \<open>
  The sort key \<open>x.combined_score\<close>. Every point that the loop builds has the field set;
  the value for a missing one is never used.
\<close>

definition score_key :: "final_key_point \<Rightarrow> real" where
  "score_key x = (case combined_score x of Some v \<Rightarrow> v | None \<Rightarrow> 0)"

text \<open>
  \<open>list.sort(key=..., reverse=True)\<close> is stable: elements with equal keys keep their
  order. The stable insertion sort on the negated key has the same result.
\<close>

definition sort_descending :: "final_key_point list \<Rightarrow> final_key_point list" where
  "sort_descending xs = sort_key (\<lambda>x. - score_key x) xs"

text \<open>\<open>for i, point in enumerate(final_points, 1): point.final_rank = i\<close>\<close>

fun assign_ranks :: "int \<Rightarrow> final_key_point list \<Rightarrow> final_key_point list" where
  "assign_ranks i [] = []"
| "assign_ranks i (point # points) = point\<lparr>final_rank := i\<rparr> # assign_ranks (i + 1) points"

definition process_and_rank ::
  "(string \<Rightarrow> string \<Rightarrow> real) \<Rightarrow> int \<Rightarrow> extracted_point list \<Rightarrow> chunk list
     \<Rightarrow> error + final_key_point list"
where
  "process_and_rank tsr top_k extracted_points chunks =
     (case final_points_loop tsr chunks extracted_points [] of
        Inl e \<Rightarrow> Inl e
      | Inr final_points \<Rightarrow>
          Inr (assign_ranks 1 (py_slice (sort_descending final_points) 0 top_k)))"

text \<open>
  A scorer for closed examples. On the strings of the examples below it has the values
  of \<open>token_set_ratio\<close>: 100 for two equal strings with a token, 0 for strings without a
  common character.
\<close>

definition sample_ratio :: "string \<Rightarrow> string \<Rightarrow> real" where
  "sample_ratio a b = (if a = b \<and> strip a \<noteq> [] then 100 else 0)"

text \<open>
  A point for closed examples: the given summary, importance score, quote, page and
  retrieval score; every other field has the default of the schema.
\<close>

definition sample_point ::
  "string \<Rightarrow> real \<Rightarrow> string option \<Rightarrow> int option \<Rightarrow> real option \<Rightarrow> extracted_point" where
  "sample_point s imp quote page retrieval =
     \<lparr> summary = s, importance = None, importance_score = imp, stance = NEUTRAL,
       supporting_quote = quote, legal_concepts = [], page_start = page, page_end = None,
       line_start = None, line_end = None, category = None,
       retrieval_score = retrieval, combined_score = None \<rparr>"

definition sample_chunk :: "string \<Rightarrow> int \<Rightarrow> int \<Rightarrow> chunk" where
  "sample_chunk window page_num idx = make_chunk window page_num ''doc'' 3 idx"

section \<open>The embedding service and the vector store: \<open>EmbeddingService\<close>, \<open>VectorStore\<close>\<close>

text \<open>
  The sentence-transformers model is outside the repository: \<open>model_encode\<close> is its
  \<open>encode\<close>, which returns one vector per text or raises. \<open>EmbeddingService.encode\<close>
  refuses an empty list and wraps every exception of the model in a \<open>RuntimeError\<close>.
\<close>

definition encode :: "(string list \<Rightarrow> error + 'v list) \<Rightarrow> string list \<Rightarrow> error + 'v list" where
  "encode model_encode texts =
     (if texts = [] then Inl ValueError
      else case model_encode texts of Inl e \<Rightarrow> Inl RuntimeError | Inr embeddings \<Rightarrow> Inr embeddings)"

text \<open>
  A distance as faiss returns it: a float that may be NaN or infinite.
\<close>

datatype fdist = Fin real | PosInf | NegInf | NaN

text \<open>
  The faiss engine is outside the repository. The model takes its operations as
  parameters, on an index type \<open>'ix\<close> that the store only holds and passes on: the
  constructor \<open>faiss.IndexHNSWFlat(dimension, m)\<close>, the two assignments to
  \<open>index.hnsw.efConstruction\<close> and \<open>index.hnsw.efSearch\<close>, \<open>index.add\<close>, and
  \<open>index.search\<close> for one query, which returns the first row of distances and of
  labels as a list of pairs. A constructor, \<open>add\<close> or \<open>search\<close> that raises returns
  \<open>Inl\<close>, and so does the assignment to \<open>efConstruction\<close>, which raises for a value
  that is no C integer.
\<close>

record ('ix, 'v) ann_engine =
  IndexHNSWFlat :: "int \<Rightarrow> int \<Rightarrow> error + 'ix"
  set_efConstruction :: "'ix \<Rightarrow> int \<Rightarrow> error + 'ix"
  set_efSearch :: "'ix \<Rightarrow> int \<Rightarrow> 'ix"
  index_add :: "'ix \<Rightarrow> 'v list \<Rightarrow> error + 'ix"
  index_search :: "'ix \<Rightarrow> 'v list \<Rightarrow> int \<Rightarrow> error + (fdist \<times> int) list"

text \<open>The fields of a \<open>VectorStore\<close> object, with the prefix \<open>vs_\<close>.\<close>

record 'ix vector_store =
  vs_dimension :: int
  vs_m :: int
  vs_ef_construction :: int
  vs_index :: "'ix option"
  vs_chunks :: "chunk list"
  vs_doc_id :: "string option"

text \<open>\<open>VectorStore.__init__\<close>: no index, no chunks, no document.\<close>

definition new_vector_store :: "int \<Rightarrow> int \<Rightarrow> int \<Rightarrow> 'ix vector_store" where
  "new_vector_store dimension m ef_construction =
     \<lparr> vs_dimension = dimension, vs_m = m, vs_ef_construction = ef_construction,
       vs_index = None, vs_chunks = [], vs_doc_id = None \<rparr>"

text \<open>
  \<open>initialize_index(doc_id, force_new)\<close>. The result is the exception raised, if
  any, and the store after the call. With an index present and \<open>force_new\<close> false the
  call returns at once and changes nothing. Otherwise the constructor, the assignment to
  \<open>efConstruction\<close> and the two assignments to \<open>doc_id\<close> and \<open>chunks\<close> run in this
  order inside one \<open>try\<close>, and every exception is raised again as a \<open>RuntimeError\<close>.
  When the constructor raises, nothing has been assigned. When the assignment to
  \<open>efConstruction\<close> raises, \<open>self.index\<close> is already the new index, and \<open>doc_id\<close> and
  \<open>chunks\<close> are still the old ones.
\<close>

definition initialize_index ::
  "('ix, 'v) ann_engine \<Rightarrow> string \<Rightarrow> bool \<Rightarrow> 'ix vector_store
     \<Rightarrow> error option \<times> 'ix vector_store" where
  "initialize_index engine doc force_new vs =
     (if vs_index vs \<noteq> None \<and> \<not> force_new then (None, vs)
      else case IndexHNSWFlat engine (vs_dimension vs) (vs_m vs) of
             Inl e \<Rightarrow> (Some RuntimeError, vs)
           | Inr ix \<Rightarrow>
               (case set_efConstruction engine ix (vs_ef_construction vs) of
                  Inl e \<Rightarrow> (Some RuntimeError, vs\<lparr> vs_index := Some ix \<rparr>)
                | Inr ix' \<Rightarrow>
                    (None, vs\<lparr> vs_index := Some ix', vs_doc_id := Some doc, vs_chunks := [] \<rparr>)))"

text \<open>
  \<open>add_chunks\<close>. A faiss index object is always true, so \<open>not self.index\<close> holds only
  for \<open>None\<close>. Exceptions of \<open>encode\<close> and of \<open>index.add\<close> are raised again as they
  are.
\<close>

definition add_chunks ::
  "('ix, 'v) ann_engine \<Rightarrow> (string list \<Rightarrow> error + 'v list) \<Rightarrow> chunk list \<Rightarrow> 'ix vector_store
     \<Rightarrow> error + 'ix vector_store" where
  "add_chunks engine model_encode new_chunks vs =
     (case vs_index vs of
        None \<Rightarrow> Inl RuntimeError
      | Some ix \<Rightarrow>
          (case encode model_encode (map chunk_text new_chunks) of
             Inl e \<Rightarrow> Inl e
           | Inr embeddings \<Rightarrow>
               (case index_add engine ix embeddings of
                  Inl e \<Rightarrow> Inl e
                | Inr ix' \<Rightarrow> Inr (vs\<lparr> vs_index := Some ix',
                                       vs_chunks := vs_chunks vs @ new_chunks \<rparr>))))"

text \<open>
  The body of the result loop of \<open>search\<close>: a non-finite distance becomes \<open>1e6\<close>, a
  negative one 0, and the similarity \<open>1 / (1 + dist)\<close> is clamped to \<open>[0, 1]\<close>.
\<close>

definition retrieval_similarity :: "fdist \<Rightarrow> real" where
  "retrieval_similarity d =
     (let distance = (case d of Fin x \<Rightarrow> x | _ \<Rightarrow> 1000000);
          distance = max distance 0;
          score = 1 / (1 + distance)
      in max 0 (min score 1))"

fun search_results :: "chunk list \<Rightarrow> (fdist \<times> int) list \<Rightarrow> (chunk \<times> real) list" where
  "search_results stored [] = []"
| "search_results stored ((distance, idx) # rest) =
     (if 0 \<le> idx \<and> idx < int (length stored)
      then (stored ! nat idx, retrieval_similarity distance) # search_results stored rest
      else search_results stored rest)"

text \<open>The test \<open>0 <= idx < len(self.chunks)\<close> of the result loop, on a pair.\<close>

definition in_range :: "chunk list \<Rightarrow> fdist \<times> int \<Rightarrow> bool" where
  "in_range stored p \<longleftrightarrow> 0 \<le> snd p \<and> snd p < int (length stored)"

text \<open>
  \<open>search(query, top_k, ef_search)\<close>. Without an index or without chunks the result
  is the empty list. Otherwise \<open>efSearch\<close> is set on the index, the query is encoded,
  the engine is asked for \<open>min(top_k, len(self.chunks))\<close> neighbours, and every
  exception becomes a \<open>RuntimeError\<close>. The result is returned with the store, whose
  index has the new \<open>efSearch\<close>.
\<close>

definition search ::
  "('ix, 'v) ann_engine \<Rightarrow> (string list \<Rightarrow> error + 'v list) \<Rightarrow> string \<Rightarrow> int \<Rightarrow> int
     \<Rightarrow> 'ix vector_store \<Rightarrow> error + ((chunk \<times> real) list \<times> 'ix vector_store)" where
  "search engine model_encode query top_k ef_search vs =
     (case vs_index vs of
        None \<Rightarrow> Inr ([], vs)
      | Some ix \<Rightarrow>
          if vs_chunks vs = [] then Inr ([], vs)
          else
            (let ix' = set_efSearch engine ix ef_search;
                 vs' = vs\<lparr> vs_index := Some ix' \<rparr>
             in case encode model_encode [query] of
                  Inl e \<Rightarrow> Inl RuntimeError
                | Inr query_embedding \<Rightarrow>
                    (case index_search engine ix' query_embedding
                            (min top_k (int (length (vs_chunks vs)))) of
                       Inl e \<Rightarrow> Inl RuntimeError
                     | Inr pairs \<Rightarrow> Inr (search_results (vs_chunks vs) pairs, vs'))))"

text \<open>
  An engine and an encoder for closed examples. The index is the number of vectors
  added. The constructor accepts every dimension and never raises, and neither does
  \<open>add\<close>; the assignment to \<open>efConstruction\<close> raises for a value outside the range of
  a 32-bit integer; \<open>search\<close> returns the first \<open>k\<close> pairs of a given answer.
\<close>

definition sample_engine :: "(fdist \<times> int) list \<Rightarrow> (nat, unit) ann_engine" where
  "sample_engine answer =
     \<lparr> IndexHNSWFlat = (\<lambda>dimension m. Inr 0),
       set_efConstruction =
         (\<lambda>ix ef. if - 2147483648 \<le> ef \<and> ef < 2147483648 then Inr ix else Inl LibraryError),
       set_efSearch = (\<lambda>ix ef. ix),
       index_add = (\<lambda>ix embeddings. Inr (ix + length embeddings)),
       index_search = (\<lambda>ix q k. Inr (take (nat k) answer)) \<rparr>"

definition sample_encode :: "string list \<Rightarrow> error + unit list" where
  "sample_encode texts = Inr (map (\<lambda>t. ()) texts)"

section \<open>Recovering JSON from a response: \<open>parse_json_response\<close>\<close>

text \<open>
  A value that \<open>json.loads\<close> returns. Python's \<open>None\<close> is \<open>JNull\<close>, so a function that
  returns a parsed value or \<open>None\<close> returns a \<open>json\<close>.
\<close>

datatype json =
  JNull | JBool bool | JNum real | JStr string | JArr "json list" | JObj "(string \<times> json) list"

text \<open>
  \<open>json.loads\<close> and \<open>re.findall\<close> belong to the standard library. The model takes
  them as parameters: \<open>json_loads\<close> returns \<open>None\<close> when \<open>json.loads\<close> raises, and
  \<open>findall p s\<close> is the list of the groups that \<open>re.findall(p, s, re.DOTALL)\<close> returns
  for the fence pattern \<open>p\<close>. The four patterns of \<open>_try_code_block\<close>, in its order,
  are an object in a fence marked json, an object in a plain fence, an array in a fence
  marked json and an array in a plain fence.
\<close>

datatype fence_pattern = JsonObjectFence | ObjectFence | JsonArrayFence | ArrayFence

definition try_direct_parse :: "(string \<Rightarrow> json option) \<Rightarrow> string \<Rightarrow> json" where
  "try_direct_parse json_loads s = (case json_loads s of None \<Rightarrow> JNull | Some v \<Rightarrow> v)"

text \<open>
  \<open>for match in matches: try: return json.loads(match) except: continue\<close>. The result
  is \<open>None\<close> when every match raises; the first match that loads ends the loop, also
  when its value is \<open>None\<close>.
\<close>

fun first_loadable :: "(string \<Rightarrow> json option) \<Rightarrow> string list \<Rightarrow> json option" where
  "first_loadable json_loads [] = None"
| "first_loadable json_loads (m # matches) =
     (case json_loads m of Some v \<Rightarrow> Some v | None \<Rightarrow> first_loadable json_loads matches)"

fun code_block_loop ::
  "(string \<Rightarrow> json option) \<Rightarrow> (fence_pattern \<Rightarrow> string \<Rightarrow> string list) \<Rightarrow> fence_pattern list \<Rightarrow> string
     \<Rightarrow> json" where
  "code_block_loop json_loads findall [] s = JNull"
| "code_block_loop json_loads findall (pattern # patterns) s =
     (case first_loadable json_loads (findall pattern s) of
        Some v \<Rightarrow> v
      | None \<Rightarrow> code_block_loop json_loads findall patterns s)"

definition try_code_block ::
  "(string \<Rightarrow> json option) \<Rightarrow> (fence_pattern \<Rightarrow> string \<Rightarrow> string list) \<Rightarrow> string \<Rightarrow> json" where
  "try_code_block json_loads findall s =
     code_block_loop json_loads findall [JsonObjectFence, ObjectFence, JsonArrayFence, ArrayFence] s"

text \<open>\<open>str.find\<close> and \<open>str.rfind\<close> of one character: the index, or \<open>-1\<close>.\<close>

fun find_from :: "char \<Rightarrow> string \<Rightarrow> int \<Rightarrow> int" where
  "find_from c [] i = - 1"
| "find_from c (x # xs) i = (if x = c then i else find_from c xs (i + 1))"

definition find_char :: "char \<Rightarrow> string \<Rightarrow> int" where
  "find_char c s = find_from c s 0"

definition rfind_char :: "char \<Rightarrow> string \<Rightarrow> int" where
  "rfind_char c s =
     (let r = find_from c (rev s) 0 in if r = - 1 then - 1 else int (length s) - 1 - r)"

text \<open>One of the two attempts of \<open>_try_bracket_extract\<close>: \<open>Some v\<close> when it returns \<open>v\<close>.\<close>

definition bracket_attempt :: "(string \<Rightarrow> json option) \<Rightarrow> char \<Rightarrow> char \<Rightarrow> string \<Rightarrow> json option" where
  "bracket_attempt json_loads opening closing s =
     (let start_idx = find_char opening s; end_idx = rfind_char closing s
      in if start_idx \<noteq> - 1 \<and> end_idx \<noteq> - 1 \<and> end_idx > start_idx
         then json_loads (py_slice s start_idx (end_idx + 1))
         else None)"

definition try_bracket_extract :: "(string \<Rightarrow> json option) \<Rightarrow> string \<Rightarrow> json" where
  "try_bracket_extract json_loads s =
     (case bracket_attempt json_loads CHR ''{'' CHR ''}'' s of
        Some v \<Rightarrow> v
      | None \<Rightarrow>
          (case bracket_attempt json_loads CHR ''['' CHR '']'' s of
             Some v \<Rightarrow> v
           | None \<Rightarrow> JNull))"

definition prefixes_to_remove :: "string list" where
  "prefixes_to_remove =
     [''Here is the JSON:'', ''Here'' @ [CHR 0x27] @ ''s the JSON:'', ''JSON response:'',
      ''Response:'', ''Output:'', ''Result:'']"

fun remove_prefix_loop :: "(string \<Rightarrow> json option) \<Rightarrow> string list \<Rightarrow> string \<Rightarrow> json" where
  "remove_prefix_loop json_loads [] s = JNull"
| "remove_prefix_loop json_loads (p # ps) s =
     (if prefix (lower p) (lower s)
      then (case json_loads (strip (drop (length p) s)) of
              Some v \<Rightarrow> v
            | None \<Rightarrow> remove_prefix_loop json_loads ps s)
      else remove_prefix_loop json_loads ps s)"

definition try_remove_prefix :: "(string \<Rightarrow> json option) \<Rightarrow> string \<Rightarrow> json" where
  "try_remove_prefix json_loads s = remove_prefix_loop json_loads prefixes_to_remove s"

text \<open>
  \<open>for parser in (...): result = parser(response_text); if result is not None: return
  result\<close>, and \<open>None\<close> after the loop.
\<close>

fun first_result :: "(string \<Rightarrow> json) list \<Rightarrow> string \<Rightarrow> json" where
  "first_result [] s = JNull"
| "first_result (parser # parsers) s =
     (let result = parser s in if result \<noteq> JNull then result else first_result parsers s)"

definition parse_json_response ::
  "(string \<Rightarrow> json option) \<Rightarrow> (fence_pattern \<Rightarrow> string \<Rightarrow> string list) \<Rightarrow> string \<Rightarrow> json" where
  "parse_json_response json_loads findall response_text =
     (if response_text = [] then JNull
      else first_result
             [try_direct_parse json_loads, try_code_block json_loads findall,
              try_bracket_extract json_loads, try_remove_prefix json_loads]
             (strip response_text))"

text \<open>
  The recovery as the specification describes it, for the comparison with the code:
  four strategies, each with a list of candidate strings in a fixed order and with the
  value of the first candidate that \<open>json.loads\<close> accepts as its result; the result of
  the whole is the result of the first strategy that has one. The candidates are the
  text itself; the groups of the four fence patterns, in pattern order; the part from
  the first opening to the last closing brace, then the same for square brackets; and
  the text after each known prefix that it starts with, stripped.
\<close>

definition first_loaded :: "(string \<Rightarrow> json option) \<Rightarrow> string list \<Rightarrow> json" where
  "first_loaded json_loads candidates =
     (case List.map_filter json_loads candidates of [] \<Rightarrow> JNull | v # rest \<Rightarrow> v)"

definition fence_candidates :: "(fence_pattern \<Rightarrow> string \<Rightarrow> string list) \<Rightarrow> string \<Rightarrow> string list" where
  "fence_candidates findall s =
     findall JsonObjectFence s @ findall ObjectFence s @ findall JsonArrayFence s @ findall ArrayFence s"

definition between :: "char \<Rightarrow> char \<Rightarrow> string \<Rightarrow> string list" where
  "between opening closing s =
     (let a = length (takeWhile (\<lambda>x. x \<noteq> opening) s);
          k = length (takeWhile (\<lambda>x. x \<noteq> closing) (rev s))
      in if a + k + 1 < length s then [take (length s - k - a) (drop a s)] else [])"

definition bracket_candidates :: "string \<Rightarrow> string list" where
  "bracket_candidates s = between CHR ''{'' CHR ''}'' s @ between CHR ''['' CHR '']'' s"

definition prefix_candidates :: "string \<Rightarrow> string list" where
  "prefix_candidates s =
     map (\<lambda>p. strip (drop (length p) s))
       (filter (\<lambda>p. prefix (lower p) (lower s))
          [''Here is the JSON:'', ''Here'' @ [CHR 0x27] @ ''s the JSON:'', ''JSON response:'',
           ''Response:'', ''Output:'', ''Result:''])"

definition spec_parse_json ::
  "(string \<Rightarrow> json option) \<Rightarrow> (fence_pattern \<Rightarrow> string \<Rightarrow> string list) \<Rightarrow> string \<Rightarrow> json" where
  "spec_parse_json json_loads findall response_text =
     (if response_text = [] then JNull
      else
        (let s = strip response_text
         in case filter (\<lambda>r. r \<noteq> JNull)
                   [first_loaded json_loads [s],
                    first_loaded json_loads (fence_candidates findall s),
                    first_loaded json_loads (bracket_candidates s),
                    first_loaded json_loads (prefix_candidates s)] of
              [] \<Rightarrow> JNull
            | r # rest \<Rightarrow> r))"

text \<open>
  A \<open>json.loads\<close> and a \<open>re.findall\<close> for closed examples. The loader knows the empty
  object, the empty array and the number 7. The only text of the examples with a fence
  is the one below, where \<open>re.findall\<close> finds the group \<open>[]\<close> with the third pattern,
  the array in a fence marked json, and nothing with the other three.
\<close>

definition sample_loads :: "string \<Rightarrow> json option" where
  "sample_loads s =
     (if s = ''{}'' then Some (JObj []) else if s = ''[]'' then Some (JArr [])
      else if s = ''7'' then Some (JNum 7) else None)"

definition fenced_text :: string where
  "fenced_text = ''```json [] ``` or {}''"

definition sample_findall :: "fence_pattern \<Rightarrow> string \<Rightarrow> string list" where
  "sample_findall p s = (if p = JsonArrayFence \<and> s = fenced_text then [''[]''] else [])"

section \<open>The extraction service: \<open>LLMAnalyzer.analyze_chunks\<close>\<close>

record llm_analysis_output =
  extracted_points :: "extracted_point list"
  confidence :: real

definition empty_analysis :: llm_analysis_output where
  "empty_analysis = \<lparr> extracted_points = [], confidence = 0 \<rparr>"

text \<open>
  What \<open>analyze_chunks\<close> takes from outside the repository. \<open>llm\<close> is \<open>self.llm\<close>:
  \<open>None\<close> when the model could not be set up, else the function from a prompt to the
  text of the response, \<open>None\<close> when \<open>invoke\<close> raises. \<open>prompt_template\<close> is the fixed
  f-string of \<open>_create_extraction_prompt\<close> around the context. \<open>build_point\<close> is the body
  of the \<open>try\<close> for one record of the response with its retrieval score, up to the
  \<open>ExtractedPoint\<close> that pydantic constructs: \<open>None\<close> when it raises, and the record is
  skipped. \<open>str_to_float\<close> is \<open>float\<close> on a string.
\<close>

record llm_env =
  llm :: "(string \<Rightarrow> string option) option"
  llm_json_loads :: "string \<Rightarrow> json option"
  llm_findall :: "fence_pattern \<Rightarrow> string \<Rightarrow> string list"
  prompt_template :: "string \<Rightarrow> string"
  build_point :: "json \<Rightarrow> real \<Rightarrow> extracted_point option"
  str_to_float :: "string \<Rightarrow> real option"

text \<open>\<open>_prepare_context\<close>: one labelled excerpt per chunk, numbered from 1, joined by newlines.\<close>

fun context_parts :: "int \<Rightarrow> (chunk \<times> real) list \<Rightarrow> string list" where
  "context_parts i [] = []"
| "context_parts i ((c, score) # rest) =
     (''[Chunk '' @ str_int i @ '', Page '' @ str_int (page_number (metadata c)) @ '']:''
        @ [CHR 0x0A] @ chunk_text c @ [CHR 0x0A])
     # context_parts (i + 1) rest"

fun join :: "string \<Rightarrow> string list \<Rightarrow> string" where
  "join sep [] = []"
| "join sep [s] = s"
| "join sep (s # t # rest) = s @ sep @ join sep (t # rest)"

definition prepare_context :: "(chunk \<times> real) list \<Rightarrow> string" where
  "prepare_context chunks_with_scores = join [CHR 0x0A] (context_parts 1 chunks_with_scores)"

text \<open>Truth of a parsed value, \<open>dict.get\<close> with a default, iteration and \<open>float\<close>.\<close>

fun truthy :: "json \<Rightarrow> bool" where
  "truthy JNull = False"
| "truthy (JBool b) = b"
| "truthy (JNum x) = (x \<noteq> 0)"
| "truthy (JStr s) = (s \<noteq> [])"
| "truthy (JArr xs) = (xs \<noteq> [])"
| "truthy (JObj kvs) = (kvs \<noteq> [])"

definition json_get :: "(string \<times> json) list \<Rightarrow> string \<Rightarrow> json \<Rightarrow> json" where
  "json_get kvs key dflt = (case map_of kvs key of Some v \<Rightarrow> v | None \<Rightarrow> dflt)"

fun json_iter :: "json \<Rightarrow> json list option" where
  "json_iter (JArr xs) = Some xs"
| "json_iter (JObj kvs) = Some (map (\<lambda>kv. JStr (fst kv)) kvs)"
| "json_iter (JStr s) = Some (map (\<lambda>c. JStr [c]) s)"
| "json_iter v = None"

fun json_float :: "(string \<Rightarrow> real option) \<Rightarrow> json \<Rightarrow> real option" where
  "json_float str_float (JNum x) = Some x"
| "json_float str_float (JBool b) = Some (if b then 1 else 0)"
| "json_float str_float (JStr s) = str_float s"
| "json_float str_float v = None"

text \<open>
  \<open>for i, point_data in enumerate(points_data)\<close>: the retrieval score of the chunk
  with the same position, or 0.5 beyond the analysed chunks; a record that raises is
  skipped.
\<close>

fun points_loop ::
  "(json \<Rightarrow> real \<Rightarrow> extracted_point option) \<Rightarrow> (chunk \<times> real) list \<Rightarrow> nat \<Rightarrow> json list
     \<Rightarrow> extracted_point list \<Rightarrow> extracted_point list" where
  "points_loop build chunks_to_analyze i [] acc = acc"
| "points_loop build chunks_to_analyze i (point_data # rest) acc =
     (let retrieval = (if i < length chunks_to_analyze then snd (chunks_to_analyze ! i) else 0.5)
      in case build point_data retrieval of
           None \<Rightarrow> points_loop build chunks_to_analyze (i + 1) rest acc
         | Some point \<Rightarrow> points_loop build chunks_to_analyze (i + 1) rest (acc @ [point]))"

text \<open>
  \<open>analyze_chunks\<close>. Without a model the result is the empty analysis with confidence
  0. With a model, everything from \<open>invoke\<close> on is inside \<open>try\<close>, and every exception
  gives the empty analysis: \<open>invoke\<close> raising, a parsed value that is not a dictionary
  (\<open>.get\<close> raises), points that cannot be iterated, a confidence that is no float or
  that \<open>LLMAnalysisOutput\<close> refuses as outside \<open>[0, 1]\<close>.
\<close>

definition analyze_chunks :: "llm_env \<Rightarrow> (chunk \<times> real) list \<Rightarrow> int \<Rightarrow> llm_analysis_output" where
  "analyze_chunks env chunks_with_scores max_chunks =
     (case llm env of
        None \<Rightarrow> \<lparr> extracted_points = [], confidence = 0 \<rparr>
      | Some invoke \<Rightarrow>
          (let chunks_to_analyze = py_slice chunks_with_scores 0 max_chunks;
               prompt = prompt_template env (prepare_context chunks_to_analyze)
           in case invoke prompt of
                None \<Rightarrow> empty_analysis
              | Some response_text \<Rightarrow>
                  (let parsed_data = parse_json_response (llm_json_loads env) (llm_findall env) response_text
                   in if \<not> truthy parsed_data then empty_analysis
                      else
                        (case parsed_data of
                           JObj kvs \<Rightarrow>
                             (let arguments = json_get kvs ''arguments'' (JArr []);
                                  points_data = (if truthy arguments then arguments
                                                 else json_get kvs ''extracted_points'' (JArr []))
                              in case json_iter points_data of
                                   None \<Rightarrow> empty_analysis
                                 | Some items \<Rightarrow>
                                     (let points = points_loop (build_point env) chunks_to_analyze 0 items []
                                      in case json_float (str_to_float env)
                                                (json_get kvs ''confidence'' (JNum 0.8)) of
                                           None \<Rightarrow> empty_analysis
                                         | Some c \<Rightarrow>
                                             if 0 \<le> c \<and> c \<le> 1
                                             then \<lparr> extracted_points = points, confidence = c \<rparr>
                                             else empty_analysis))
                         | _ \<Rightarrow> empty_analysis))))"

section \<open>The PDF processor and the pipeline: \<open>process_pdf\<close>, \<open>analyze_document\<close>\<close>

text \<open>
  \<open>process_pdf\<close> on the texts that pdfplumber extracts, one per page, \<open>None\<close> for a
  page without text. Pages are numbered from 1; a page whose text is empty or blank
  gives no chunk. The result is \<open>None\<close> when the chunker does not return on a page.
\<close>

fun pages_loop ::
  "int \<Rightarrow> int \<Rightarrow> string \<Rightarrow> int \<Rightarrow> int \<Rightarrow> string option list \<Rightarrow> chunk list \<Rightarrow> chunk list option" where
  "pages_loop chunk_size chunk_overlap doc n_pages page_num [] acc = Some acc"
| "pages_loop chunk_size chunk_overlap doc n_pages page_num (page # pages) acc =
     (case page of
        None \<Rightarrow> pages_loop chunk_size chunk_overlap doc n_pages (page_num + 1) pages acc
      | Some ptext \<Rightarrow>
          if ptext \<noteq> [] \<and> strip ptext \<noteq> [] then
            (case split_text_with_page chunk_size chunk_overlap ptext page_num doc n_pages of
               None \<Rightarrow> None
             | Some page_chunks \<Rightarrow>
                 pages_loop chunk_size chunk_overlap doc n_pages (page_num + 1) pages (acc @ page_chunks))
          else pages_loop chunk_size chunk_overlap doc n_pages (page_num + 1) pages acc)"

text \<open>
  \<open>pdf\<close> is what opening the file and extracting the texts gives: \<open>Inl\<close> when
  pdfplumber raises, which \<open>process_pdf\<close> turns into a \<open>RuntimeError\<close>.
\<close>

definition process_pdf ::
  "int \<Rightarrow> int \<Rightarrow> error + string option list \<Rightarrow> string \<Rightarrow> (error + chunk list \<times> int) option" where
  "process_pdf chunk_size chunk_overlap pdf doc =
     (case pdf of
        Inl e \<Rightarrow> Some (Inl RuntimeError)
      | Inr pages \<Rightarrow>
          (case pages_loop chunk_size chunk_overlap doc (int (length pages)) 1 pages [] of
             None \<Rightarrow> None
           | Some found \<Rightarrow> Some (Inr (found, int (length pages)))))"

text \<open>\<open>MetadataExtractor.extract_metadata\<close>; \<open>None\<close> is the empty dictionary.\<close>

record doc_metadata =
  md_document_name :: string
  md_total_pages :: int
  md_total_chunks :: int
  md_document_id :: string

definition extract_metadata :: "chunk list \<Rightarrow> string \<Rightarrow> doc_metadata option" where
  "extract_metadata found doc_name =
     (case found of
        [] \<Rightarrow> None
      | first # rest \<Rightarrow>
          Some \<lparr> md_document_name = doc_name,
                 md_total_pages = total_pages (metadata first),
                 md_total_chunks = int (length found),
                 md_document_id = document_id (metadata first) \<rparr>)"

text \<open>The settings that the pipeline reads, and the result payload with the prefix \<open>res_\<close>.\<close>

record settings =
  CHUNK_SIZE :: int
  CHUNK_OVERLAP :: int
  TOP_K_RETRIEVAL :: int
  FINAL_OUTPUT_COUNT :: int
  FAISS_EF_SEARCH :: int

record analysis_result =
  res_document_id :: string
  res_document_name :: string
  res_total_pages :: int
  res_total_chunks :: int
  key_points :: "final_key_point list"
  res_processing_time :: real
  res_metadata :: "doc_metadata option"

text \<open>
  What one run of \<open>analyze_document\<close> takes from outside: the bytes of the file
  (\<open>None\<close> when the path is not a file), the SHA-256 hex digest, the texts of the PDF,
  the embedding model, the faiss engine, \<open>token_set_ratio\<close>, the extraction service, and
  the elapsed time as the clock gives it, rounded to two decimals.
\<close>

record ('ix, 'v) collaborators =
  file_content :: "string option"
  sha256_hex :: "string \<Rightarrow> string"
  pdf_texts :: "error + string option list"
  embedding_model :: "string list \<Rightarrow> error + 'v list"
  faiss :: "('ix, 'v) ann_engine"
  token_set_ratio :: "string \<Rightarrow> string \<Rightarrow> real"
  extraction :: llm_env
  elapsed :: real

text \<open>
  Steps 1 to 6 of \<open>analyze_document\<close>: the file, the document id, the chunks, the
  metadata, the index and the retrieval with the fixed query. The result has the
  document id, the chunks, the number of pages, the metadata, the retrieved chunks and
  the vector store after the search.
\<close>

definition retrieval_query :: string where
  "retrieval_query = ''Extract key legal arguments from this document''"

definition retrieve_stage ::
  "settings \<Rightarrow> ('ix, 'v) collaborators \<Rightarrow> string \<Rightarrow> 'ix vector_store
     \<Rightarrow> (error + string \<times> chunk list \<times> int \<times> doc_metadata option \<times> (chunk \<times> real) list \<times> 'ix vector_store) option"
where
  "retrieve_stage cfg w filename vs =
     (case file_content w of
        None \<Rightarrow> Some (Inl FileNotFoundError)
      | Some content \<Rightarrow>
          if content = [] then Some (Inl ValueError)
          else
            (let doc = sha256_hex w content
             in case process_pdf (CHUNK_SIZE cfg) (CHUNK_OVERLAP cfg) (pdf_texts w) doc of
                  None \<Rightarrow> None
                | Some (Inl e) \<Rightarrow> Some (Inl e)
                | Some (Inr (found, n_pages)) \<Rightarrow>
                    if found = [] then Some (Inl ValueError)
                    else
                      (let md = extract_metadata found filename
                       in case initialize_index (faiss w) doc True vs of
                            (Some e, vs1) \<Rightarrow> Some (Inl e)
                          | (None, vs1) \<Rightarrow>
                              (case add_chunks (faiss w) (embedding_model w) found vs1 of
                                 Inl e \<Rightarrow> Some (Inl e)
                               | Inr vs2 \<Rightarrow>
                                   (case search (faiss w) (embedding_model w) retrieval_query
                                           (TOP_K_RETRIEVAL cfg) (FAISS_EF_SEARCH cfg) vs2 of
                                      Inl e \<Rightarrow> Some (Inl e)
                                    | Inr (retrieved, vs3) \<Rightarrow>
                                        Some (Inr (doc, found, n_pages, md, retrieved, vs3)))))))"

text \<open>
  \<open>analyze_document\<close>: steps 1 to 6, then the extraction on the retrieved chunks
  (step 7), the ranking against all chunks of the document (step 8) and the result. An
  exception of any step ends the run with that exception.
\<close>

definition analyze_document ::
  "settings \<Rightarrow> ('ix, 'v) collaborators \<Rightarrow> string \<Rightarrow> 'ix vector_store
     \<Rightarrow> (error + analysis_result \<times> 'ix vector_store) option"
where
  "analyze_document cfg w filename vs =
     (case retrieve_stage cfg w filename vs of
        None \<Rightarrow> None
      | Some (Inl e) \<Rightarrow> Some (Inl e)
      | Some (Inr (doc, found, n_pages, md, retrieved, vs3)) \<Rightarrow>
          (let llm_output = analyze_chunks (extraction w) retrieved 30
           in case process_and_rank (token_set_ratio w) (FINAL_OUTPUT_COUNT cfg)
                     (extracted_points llm_output) found of
                Inl e \<Rightarrow> Some (Inl e)
              | Inr final_points \<Rightarrow>
                  Some (Inr (\<lparr> res_document_id = doc,
                                res_document_name = filename,
                                res_total_pages = n_pages,
                                res_total_chunks = int (length found),
                                key_points = final_points,
                                res_processing_time = elapsed w,
                                res_metadata = md \<rparr>, vs3))))"

text \<open>Collaborators for closed examples: the sample engine, encoder and scorer, and no model.\<close>

definition sample_llm_env :: llm_env where
  "sample_llm_env =
     \<lparr> llm = None, llm_json_loads = sample_loads, llm_findall = sample_findall,
       prompt_template = (\<lambda>context. context), build_point = (\<lambda>point_data retrieval. None),
       str_to_float = (\<lambda>s. None) \<rparr>"

definition sample_collaborators :: "string option list \<Rightarrow> (nat, unit) collaborators" where
  "sample_collaborators texts =
     \<lparr> file_content = Some ''%PDF'',
       sha256_hex = (\<lambda>content. ''doc''),
       pdf_texts = Inr texts,
       embedding_model = sample_encode,
       faiss = sample_engine [(Fin 0, 0)],
       token_set_ratio = sample_ratio,
       extraction = sample_llm_env,
       elapsed = 0 \<rparr>"

definition sample_settings :: settings where
  "sample_settings =
     \<lparr> CHUNK_SIZE = 1500, CHUNK_OVERLAP = 200, TOP_K_RETRIEVAL = 60, FINAL_OUTPUT_COUNT = 10,
       FAISS_EF_SEARCH = 64 \<rparr>"

section \<open>Properties of the chunker\<close>

lemma py_slice_nat:
  "0 \<le> i \<Longrightarrow> 0 \<le> c \<Longrightarrow> py_slice xs i (i + c) = take (nat c) (drop (nat i) xs)"
  by (auto simp: py_slice_def py_bound_def Let_def min_def nat_add_distrib)

lemma split_loop_step:
  assumes "start < length ptext"
  shows "split_loop (int csize) (int overlap) ptext page_num doc_id n_pages (int start) idx chunks =
     split_loop (int csize) (int overlap) ptext page_num doc_id n_pages
       (if start + csize < length ptext then int start + int csize - int overlap else int start + int csize)
       (if strip (take csize (drop start ptext)) \<noteq> [] then idx + 1 else idx)
       (if strip (take csize (drop start ptext)) \<noteq> []
        then chunks @ [make_chunk (take csize (drop start ptext)) page_num doc_id n_pages idx]
        else chunks)"
proof -
  have w: "py_slice ptext (int start) (int start + int csize) = take csize (drop start ptext)"
    using py_slice_nat [of "int start" "int csize" ptext] by simp
  have c: "(int start + int csize < int (length ptext)) = (start + csize < length ptext)"
    by linarith
  show ?thesis
    apply (subst split_loop.simps)
    using assms apply (simp only: w c Let_def of_nat_less_iff if_True)
    done
qed

lemma split_loop_done:
  assumes "\<not> start < int (length ptext)"
  shows "split_loop chunk_size chunk_overlap ptext page_num doc_id n_pages start idx chunks = Some chunks"
  apply (subst split_loop.simps)
  using assms apply (simp only: if_False)
  done

lemma split_loop_windows:
  assumes "overlap < csize"
  shows "split_loop (int csize) (int overlap) ptext page_num doc_id n_pages (int start) idx chunks =
           Some (chunks @ number_chunks page_num doc_id n_pages idx
                            (map snd (spec_windows csize overlap ptext start)))"
  using assms
proof (induction csize overlap ptext start arbitrary: idx chunks rule: spec_windows.induct)
  case (1 csize overlap ptext start)
  show ?case
  proof (cases "start < length ptext")
    case False
    then have "spec_windows csize overlap ptext start = []"
      by (subst spec_windows.simps) simp
    moreover from False have "\<not> int start < int (length ptext)" by simp
    ultimately show ?thesis
      by (simp add: split_loop_done)
  next
    case True
    let ?w = "take csize (drop start ptext)"
    show ?thesis
    proof (cases "start + csize < length ptext")
      case False
      have sw: "spec_windows csize overlap ptext start = [(start, ?w)]"
        using True False "1.prems" by (subst spec_windows.simps) simp
      have fin: "\<not> int start + int csize < int (length ptext)"
        using False by linarith
      show ?thesis
        unfolding split_loop_step [OF True] sw
        using False by (simp add: split_loop_done [OF fin])
    next
      case more: True
      have sw: "spec_windows csize overlap ptext start =
                  (start, ?w) # spec_windows csize overlap ptext (start + csize - overlap)"
        using True more "1.prems" by (subst spec_windows.simps) simp
      have step: "int start + int csize - int overlap = int (start + csize - overlap)"
        using "1.prems" by linarith
      have IH: "split_loop (int csize) (int overlap) ptext page_num doc_id n_pages
                  (int (start + csize - overlap)) i cs =
                Some (cs @ number_chunks page_num doc_id n_pages i
                        (map snd (spec_windows csize overlap ptext (start + csize - overlap))))"
        for i cs
        using "1.IH" [of i cs] True more "1.prems" by blast
      show ?thesis
        unfolding split_loop_step [OF True] sw
        using more by (simp only: if_True step IH) simp
    qed
  qed
qed

lemma upt_shift: "map (\<lambda>k. idx + int k) [0..<Suc n] = idx # map (\<lambda>k. idx + 1 + int k) [0..<n]"
proof -
  have "[0..<Suc n] = 0 # map Suc [0..<n]"
    by (simp only: upt_conv_Cons [of 0 "Suc n"] zero_less_Suc map_Suc_upt)
  then show ?thesis by (simp add: comp_def add.assoc del: upt_Suc)
qed

lemma split_loop_partial:
  "split_loop chunk_size chunk_overlap ptext page_num doc_id n_pages start idx chunks = Some out \<Longrightarrow>
     \<exists>new. out = chunks @ new \<and>
       map (chunk_index \<circ> metadata) new = map (\<lambda>k. idx + int k) [0..<length new]"
proof (rule split_loop.raw_induct
    [where P = "\<lambda>chunk_size chunk_overlap ptext page_num doc_id n_pages start idx chunks out.
        \<exists>new. out = chunks @ new \<and>
          map (chunk_index \<circ> metadata) new = map (\<lambda>k. idx + int k) [0..<length new]"],
    goal_cases)
  case (1 f chunk_size chunk_overlap ptext page_num doc_id n_pages start idx chunks out)
  note IH = "1"(2) and prems = "1"(3)
  show ?case
  proof (cases "start < int (length ptext)")
    case False
    with prems have "out = chunks" by (simp only: if_False option.inject)
    then show ?thesis by simp
  next
    case True
    define window where "window = py_slice ptext start (start + chunk_size)"
    define start' where
      "start' = (if start + chunk_size < int (length ptext) then start + chunk_size - chunk_overlap
                 else start + chunk_size)"
    from prems True
    have body: "f chunk_size chunk_overlap ptext page_num doc_id n_pages start'
                  (if strip window \<noteq> [] then idx + 1 else idx)
                  (if strip window \<noteq> [] then chunks @ [make_chunk window page_num doc_id n_pages idx]
                   else chunks) = Some out"
      unfolding window_def start'_def by (simp only: if_True Let_def)
    show ?thesis
    proof (cases "strip window = []")
      case True
      with body
      have "f chunk_size chunk_overlap ptext page_num doc_id n_pages start' idx chunks = Some out"
        by (simp only: not_True_eq_False if_False simp_thms)
      from IH [OF this] show ?thesis .
    next
      case False
      let ?c = "make_chunk window page_num doc_id n_pages idx"
      from False body
      have "f chunk_size chunk_overlap ptext page_num doc_id n_pages start' (idx + 1) (chunks @ [?c]) = Some out"
        by (simp only: if_True simp_thms)
      from IH [OF this] obtain new where
        new: "out = (chunks @ [?c]) @ new"
          "map (chunk_index \<circ> metadata) new = map (\<lambda>k. idx + 1 + int k) [0..<length new]"
        by blast
      have ci: "chunk_index (metadata ?c) = idx" by (simp add: make_chunk_def)
      have "map (chunk_index \<circ> metadata) (?c # new) = map (\<lambda>k. idx + int k) [0..<length (?c # new)]"
        unfolding length_Cons upt_shift using new(2) ci by simp
      with new(1) show ?thesis
        by (intro exI [of _ "?c # new"]) simp
    qed
  qed
qed assumption

lemma number_chunks_text:
  "map chunk_text (number_chunks page_num doc_id n_pages idx ws) =
     map strip (filter (\<lambda>w. strip w \<noteq> []) ws)"
  by (induction ws arbitrary: idx) (simp_all add: make_chunk_def)

lemma split_text_windows:
  assumes "0 \<le> chunk_overlap" "chunk_overlap < chunk_size"
  shows "split_text_with_page chunk_size chunk_overlap ptext page_num doc_id n_pages =
           Some (number_chunks page_num doc_id n_pages 0
                   (map snd (spec_windows (nat chunk_size) (nat chunk_overlap) ptext 0)))"
proof -
  have "nat chunk_overlap < nat chunk_size" using assms by simp
  from split_loop_windows [OF this, of ptext page_num doc_id n_pages 0 0 "[]"] assms
  show ?thesis by (simp add: split_text_with_page_def)
qed

lemma strip_Nil_iff: "strip s = [] \<longleftrightarrow> (\<forall>c\<in>set s. is_space c)"
proof
  assume "strip s = []"
  then have a: "\<forall>c\<in>set (dropWhile is_space s). is_space c"
    by (simp add: strip_def dropWhile_eq_Nil_conv)
  show "\<forall>c\<in>set s. is_space c"
  proof (cases "dropWhile is_space s")
    case Nil
    then show ?thesis by (simp add: dropWhile_eq_Nil_conv)
  next
    case (Cons x xs)
    then have "\<not> is_space x" using hd_dropWhile [of is_space s] by simp
    with a Cons show ?thesis by simp
  qed
next
  assume "\<forall>c\<in>set s. is_space c"
  then show "strip s = []"
    by (auto simp: strip_def dropWhile_eq_Nil_conv dest: set_dropWhileD)
qed

lemma windows_3000:
  assumes "length ptext = 3000"
  shows "spec_windows 1500 200 ptext 0 =
           [(0, take 1500 ptext), (1300, take 1500 (drop 1300 ptext)), (2600, drop 2600 ptext)]"
proof -
  have a: "spec_windows 1500 200 ptext 2600 = [(2600, drop 2600 ptext)]"
    using assms by (subst spec_windows.simps) simp
  have b: "spec_windows 1500 200 ptext 1300 =
             (1300, take 1500 (drop 1300 ptext)) # spec_windows 1500 200 ptext 2600"
    using assms by (subst spec_windows.simps) simp
  have c: "spec_windows 1500 200 ptext 0 = (0, take 1500 ptext) # spec_windows 1500 200 ptext 1300"
    using assms by (subst spec_windows.simps) simp
  show ?thesis by (simp only: a b c)
qed

lemma windows_short:
  assumes "0 < length ptext" "length ptext \<le> csize" "overlap < csize"
  shows "spec_windows csize overlap ptext 0 = [(0, ptext)]"
  using assms by (subst spec_windows.simps) simp

text \<open>
  C7. Whenever the chunker returns, the \<open>chunk_index\<close> values of the page's chunks are
  \<open>0, 1, 2, ...\<close> in order, without a gap. With \<open>0 \<le> overlap < chunk_size\<close> it does
  return, and its chunks are exactly the non-blank windows, stripped, in window order: a
  blank window adds no chunk and uses no index.
\<close>

theorem chunk_index_contiguous:
  "(\<forall>chunks. split_text_with_page chunk_size chunk_overlap ptext page_num doc_id n_pages = Some chunks \<longrightarrow>
      map (chunk_index \<circ> metadata) chunks = map int [0..<length chunks])
   \<and> (0 \<le> chunk_overlap \<and> chunk_overlap < chunk_size \<longrightarrow>
      (\<exists>chunks. split_text_with_page chunk_size chunk_overlap ptext page_num doc_id n_pages = Some chunks
         \<and> map chunk_text chunks =
             map strip (filter (\<lambda>w. strip w \<noteq> [])
               (map snd (spec_windows (nat chunk_size) (nat chunk_overlap) ptext 0)))))"
proof (intro conjI allI impI)
  fix chunks
  assume "split_text_with_page chunk_size chunk_overlap ptext page_num doc_id n_pages = Some chunks"
  then have "split_loop chunk_size chunk_overlap ptext page_num doc_id n_pages 0 0 [] = Some chunks"
    by (simp only: split_text_with_page_def)
  from split_loop_partial [OF this]
  show "map (chunk_index \<circ> metadata) chunks = map int [0..<length chunks]"
    by auto
next
  assume "0 \<le> chunk_overlap \<and> chunk_overlap < chunk_size"
  then show "\<exists>chunks. split_text_with_page chunk_size chunk_overlap ptext page_num doc_id n_pages = Some chunks
         \<and> map chunk_text chunks =
             map strip (filter (\<lambda>w. strip w \<noteq> [])
               (map snd (spec_windows (nat chunk_size) (nat chunk_overlap) ptext 0)))"
    by (simp add: split_text_windows number_chunks_text)
qed

theorem chunk_index_contiguous_witness:
  "(0::int) \<le> 1 \<and> (1::int) < 4
   \<and> split_text_with_page 4 1 ''ab      cd'' 7 ''d'' 9 =
       Some [make_chunk ''ab  '' 7 ''d'' 9 0, make_chunk ''  cd'' 7 ''d'' 9 1]
   \<and> map (chunk_index \<circ> metadata) [make_chunk ''ab  '' 7 ''d'' 9 0, make_chunk ''  cd'' 7 ''d'' 9 1] = [0, 1]
   \<and> map snd (spec_windows 4 1 ''ab      cd'' 0) = [''ab  '', ''    '', ''  cd'']
   \<and> map chunk_text [make_chunk ''ab  '' 7 ''d'' 9 0, make_chunk ''  cd'' 7 ''d'' 9 1] = [''ab'', ''cd'']"
proof -
  let ?cs = "[make_chunk ''ab  '' 7 ''d'' 9 0, make_chunk ''  cd'' 7 ''d'' 9 1]"
  have run: "split_text_with_page 4 1 ''ab      cd'' 7 ''d'' 9 = Some ?cs"
    by code_simp
  have win: "map snd (spec_windows 4 1 ''ab      cd'' 0) = [''ab  '', ''    '', ''  cd'']"
    by code_simp
  have st: "map strip (filter (\<lambda>w. strip w \<noteq> []) [''ab  '', ''    '', ''  cd'']) = [''ab'', ''cd'']"
    by code_simp
  note inst = chunk_index_contiguous [of 4 1 "''ab      cd''" 7 "''d''" 9]
  from inst run have idx: "map (chunk_index \<circ> metadata) ?cs = map int [0..<length ?cs]"
    by blast
  have "(0::int) \<le> 1 \<and> (1::int) < 4" by simp
  with inst run have "map chunk_text ?cs =
      map strip (filter (\<lambda>w. strip w \<noteq> []) (map snd (spec_windows (nat 4) (nat 1) ''ab      cd'' 0)))"
    by auto
  then have texts: "map chunk_text ?cs = [''ab'', ''cd'']"
    by (simp only: nat_numeral nat_1 win st One_nat_def [symmetric])
  have "map int [0..<length ?cs] = [0, 1]" by (simp add: upt_rec)
  with idx run win texts show ?thesis by simp
qed

text \<open>
  C4 (amended). With \<open>0 \<le> overlap < chunk_size\<close> the chunks of a page are those of the
  sliding windows: the first window starts at 0, each next one at the previous end minus
  the overlap, and the window that reaches the end of the text is the last. A text of
  3000 characters with \<open>chunk_size = 1500\<close> and \<open>overlap = 200\<close> has exactly the three
  windows at offsets 0, 1300 and 2600, the last of length 400; when none of the three is
  blank the page has exactly three chunks. A text of 500 characters that is not blank has
  exactly one chunk, the stripped text.
\<close>

theorem sliding_window_examples:
  "(0 \<le> chunk_overlap \<and> chunk_overlap < chunk_size \<longrightarrow>
      split_text_with_page chunk_size chunk_overlap ptext page_num doc_id n_pages =
        Some (number_chunks page_num doc_id n_pages 0
               (map snd (spec_windows (nat chunk_size) (nat chunk_overlap) ptext 0))))
   \<and> (length ptext = 3000 \<longrightarrow>
        spec_windows 1500 200 ptext 0 =
          [(0, take 1500 ptext), (1300, take 1500 (drop 1300 ptext)), (2600, drop 2600 ptext)]
        \<and> length (drop 2600 ptext) = 400
        \<and> (strip (take 1500 ptext) \<noteq> [] \<and> strip (take 1500 (drop 1300 ptext)) \<noteq> []
             \<and> strip (drop 2600 ptext) \<noteq> [] \<longrightarrow>
           split_text_with_page 1500 200 ptext page_num doc_id n_pages =
             Some [make_chunk (take 1500 ptext) page_num doc_id n_pages 0,
                   make_chunk (take 1500 (drop 1300 ptext)) page_num doc_id n_pages 1,
                   make_chunk (drop 2600 ptext) page_num doc_id n_pages 2]))
   \<and> (length ptext = 500 \<and> strip ptext \<noteq> [] \<longrightarrow>
        split_text_with_page 1500 200 ptext page_num doc_id n_pages =
          Some [make_chunk ptext page_num doc_id n_pages 0])"
proof -
  have run: "split_text_with_page 1500 200 ptext page_num doc_id n_pages =
      Some (number_chunks page_num doc_id n_pages 0 (map snd (spec_windows 1500 200 ptext 0)))"
    using split_text_windows [of 200 1500 ptext page_num doc_id n_pages] by simp
  have general: "0 \<le> chunk_overlap \<and> chunk_overlap < chunk_size \<longrightarrow>
      split_text_with_page chunk_size chunk_overlap ptext page_num doc_id n_pages =
        Some (number_chunks page_num doc_id n_pages 0
               (map snd (spec_windows (nat chunk_size) (nat chunk_overlap) ptext 0)))"
    by (simp add: split_text_windows)
  have long: "spec_windows 1500 200 ptext 0 =
          [(0, take 1500 ptext), (1300, take 1500 (drop 1300 ptext)), (2600, drop 2600 ptext)]
        \<and> length (drop 2600 ptext) = 400
        \<and> (strip (take 1500 ptext) \<noteq> [] \<and> strip (take 1500 (drop 1300 ptext)) \<noteq> []
             \<and> strip (drop 2600 ptext) \<noteq> [] \<longrightarrow>
           split_text_with_page 1500 200 ptext page_num doc_id n_pages =
             Some [make_chunk (take 1500 ptext) page_num doc_id n_pages 0,
                   make_chunk (take 1500 (drop 1300 ptext)) page_num doc_id n_pages 1,
                   make_chunk (drop 2600 ptext) page_num doc_id n_pages 2])"
    if len: "length ptext = 3000"
    unfolding run windows_3000 [OF len] using len by simp
  have short: "split_text_with_page 1500 200 ptext page_num doc_id n_pages =
          Some [make_chunk ptext page_num doc_id n_pages 0]"
    if "length ptext = 500 \<and> strip ptext \<noteq> []"
    unfolding run using that by (simp add: windows_short)
  from general long short show ?thesis by blast
qed

lemma not_space_a: "\<not> is_space CHR ''a''"
  by (simp add: is_space_def)

lemma space_blank: "is_space CHR '' ''"
  by (simp add: is_space_def)

theorem sliding_window_examples_witness:
  "length (replicate 3000 CHR ''a'') = 3000
   \<and> split_text_with_page 1500 200 (replicate 3000 CHR ''a'') 1 ''doc'' 2 =
       Some [make_chunk (replicate 1500 CHR ''a'') 1 ''doc'' 2 0,
             make_chunk (replicate 1500 CHR ''a'') 1 ''doc'' 2 1,
             make_chunk (replicate 400 CHR ''a'') 1 ''doc'' 2 2]
   \<and> length (replicate 500 CHR ''a'') = 500
   \<and> split_text_with_page 1500 200 (replicate 500 CHR ''a'') 2 ''doc'' 2 =
       Some [make_chunk (replicate 500 CHR ''a'') 2 ''doc'' 2 0]"
proof -
  let ?l = "replicate 3000 CHR ''a''"
  have nb: "strip (take 1500 ?l) \<noteq> [] \<and> strip (take 1500 (drop 1300 ?l)) \<noteq> []
             \<and> strip (drop 2600 ?l) \<noteq> []"
    by (simp add: strip_Nil_iff not_space_a)
  have "length ?l = 3000" by simp
  with conjunct1 [OF conjunct2 [OF sliding_window_examples [of 200 1500 ?l 1 "''doc''" 2]]] nb
  have "split_text_with_page 1500 200 ?l 1 ''doc'' 2 =
       Some [make_chunk (take 1500 ?l) 1 ''doc'' 2 0,
             make_chunk (take 1500 (drop 1300 ?l)) 1 ''doc'' 2 1,
             make_chunk (drop 2600 ?l) 1 ''doc'' 2 2]"
    by blast
  then have long: "split_text_with_page 1500 200 ?l 1 ''doc'' 2 =
       Some [make_chunk (replicate 1500 CHR ''a'') 1 ''doc'' 2 0,
             make_chunk (replicate 1500 CHR ''a'') 1 ''doc'' 2 1,
             make_chunk (replicate 400 CHR ''a'') 1 ''doc'' 2 2]"
    by simp
  let ?s = "replicate 500 CHR ''a''"
  have "length ?s = 500 \<and> strip ?s \<noteq> []"
    by (simp add: strip_Nil_iff not_space_a)
  with conjunct2 [OF conjunct2 [OF sliding_window_examples [of 200 1500 ?s 2 "''doc''" 2]]]
  have short: "split_text_with_page 1500 200 ?s 2 ''doc'' 2 = Some [make_chunk ?s 2 ''doc'' 2 0]"
    by blast
  from long short show ?thesis by simp
qed

text \<open>
  C4 as stated fails on a page of 3000 characters whose last 400 are spaces: the third
  window is blank and is dropped, so the page has two chunks, not three.
\<close>

theorem three_chunks_counterexample:
  "length (replicate 2600 CHR ''a'' @ replicate 400 CHR '' '') = 3000
   \<and> map_option length
       (split_text_with_page 1500 200 (replicate 2600 CHR ''a'' @ replicate 400 CHR '' '') 1 ''doc'' 2)
     = Some 2"
proof -
  let ?t = "replicate 2600 CHR ''a'' @ replicate 400 CHR '' ''"
  have len: "length ?t = 3000" by simp
  have s: "split_text_with_page 1500 200 ?t 1 ''doc'' 2 =
      Some (number_chunks 1 ''doc'' 2 0 (map snd (spec_windows 1500 200 ?t 0)))"
    using split_text_windows [of 200 1500 ?t 1 "''doc''" 2] by simp
  have w0: "strip (take 1500 ?t) \<noteq> []"
    by (simp add: strip_Nil_iff not_space_a)
  have w1: "strip (take 1500 (drop 1300 ?t)) \<noteq> []"
    by (simp add: strip_Nil_iff not_space_a)
  have w2: "strip (drop 2600 ?t) = []"
    by (simp add: strip_Nil_iff space_blank)
  show ?thesis
    unfolding s windows_3000 [OF len] using w0 w1 w2 by simp
qed

section \<open>Properties of the reconciler and ranker\<close>

lemma py_slice_take: "0 \<le> k \<Longrightarrow> py_slice xs 0 k = take (nat k) xs"
  using py_slice_nat [of 0 k xs] by simp

lemma set_py_slice: "set (py_slice xs i j) \<subseteq> set xs"
proof -
  have "set (take n (drop m xs)) \<subseteq> set xs" for n m
    using set_take_subset [of n "drop m xs"] set_drop_subset [of m xs] by blast
  then show ?thesis by (simp add: py_slice_def Let_def)
qed

lemma best_match_loop_ge:
  "best_score \<le> snd (best_match_loop tsr quote cs best_match best_score)"
proof (induction cs arbitrary: best_match best_score)
  case Nil
  then show ?case by simp
next
  case (Cons c cs)
  let ?score = "tsr (lower quote) (lower (chunk_text c)) / 100"
  show ?case
  proof (cases "?score > best_score")
    case True
    with Cons [of ?score "Some c"] show ?thesis by (simp add: Let_def)
  next
    case False
    with Cons [of best_score best_match] show ?thesis by (simp add: Let_def)
  qed
qed

lemma best_match_loop_member:
  "fst (best_match_loop tsr quote cs best_match best_score) = best_match \<or>
   (\<exists>c\<in>set cs. fst (best_match_loop tsr quote cs best_match best_score) = Some c)"
proof (induction cs arbitrary: best_match best_score)
  case Nil
  then show ?case by simp
next
  case (Cons c cs)
  let ?score = "tsr (lower quote) (lower (chunk_text c)) / 100"
  show ?case
  proof (cases "?score > best_score")
    case True
    with Cons [of "Some c" ?score] show ?thesis by (auto simp: Let_def)
  next
    case False
    with Cons [of best_match best_score] show ?thesis by (auto simp: Let_def)
  qed
qed

lemma best_match_loop_full:
  assumes "\<forall>c\<in>set cs. tsr (lower quote) (lower (chunk_text c)) \<le> 100"
  shows "best_match_loop tsr quote cs best_match 1 = (best_match, 1)"
  using assms by (induction cs) (simp_all add: Let_def)

lemma best_match_loop_first:
  assumes "\<forall>c\<in>set pre. tsr (lower quote) (lower (chunk_text c)) < 100"
    and "tsr (lower quote) (lower (chunk_text C)) = 100"
    and "\<forall>c\<in>set post. tsr (lower quote) (lower (chunk_text c)) \<le> 100"
    and "best_score < 1"
  shows "best_match_loop tsr quote (pre @ C # post) best_match best_score = (Some C, 1)"
  using assms
proof (induction pre arbitrary: best_match best_score)
  case Nil
  then show ?case by (simp add: Let_def best_match_loop_full)
next
  case (Cons c pre)
  let ?score = "tsr (lower quote) (lower (chunk_text c)) / 100"
  from Cons.prems(1) have lt: "?score < 1" by simp
  show ?case
  proof (cases "?score > best_score")
    case True
    with Cons.IH [of ?score "Some c"] Cons.prems lt show ?thesis by (simp add: Let_def)
  next
    case False
    with Cons.IH [of best_score best_match] Cons.prems show ?thesis by (simp add: Let_def)
  qed
qed

lemma candidate_chunks_subset: "set (candidate_chunks chunks expected_page) \<subseteq> set chunks"
  by (auto simp: candidate_chunks_def Let_def)

lemma candidate_chunks_fallback:
  "\<forall>c\<in>set chunks. Some (page_number (metadata c)) \<noteq> expected_page \<Longrightarrow>
     candidate_chunks chunks expected_page = chunks"
  by (simp add: candidate_chunks_def Let_def filter_empty_conv)

lemma candidate_chunks_on_page:
  assumes "expected_page = Some n" "n \<noteq> 0" "c \<in> set chunks" "page_number (metadata c) = n"
  shows "candidate_chunks chunks expected_page =
           filter (\<lambda>c. page_number (metadata c) = n) chunks"
proof -
  have "filter (\<lambda>c. page_number (metadata c) = n) chunks \<noteq> []"
    using assms(3,4) by (auto simp: filter_empty_conv)
  with assms(1,2) show ?thesis by (simp add: candidate_chunks_def Let_def)
qed

lemma find_best_confidence_nonneg: "0 \<le> snd (find_best_matching_chunk tsr quote chunks expected_page)"
  using best_match_loop_ge [of 0 tsr quote "candidate_chunks chunks expected_page" None]
  by (simp add: find_best_matching_chunk_def)

lemma find_best_member:
  "fst (find_best_matching_chunk tsr quote chunks expected_page) = Some c \<Longrightarrow> c \<in> set chunks"
  using best_match_loop_member [of tsr quote "candidate_chunks chunks expected_page" None 0]
    candidate_chunks_subset [of chunks expected_page]
  by (auto simp: find_best_matching_chunk_def split: if_splits)

lemma find_best_candidate:
  "fst (find_best_matching_chunk tsr quote chunks expected_page) = Some c \<Longrightarrow>
     c \<in> set (candidate_chunks chunks expected_page)"
  using best_match_loop_member [of tsr quote "candidate_chunks chunks expected_page" None 0]
  by (auto simp: find_best_matching_chunk_def split: if_splits)

lemma float_or_range: "0 \<le> v \<Longrightarrow> v \<le> 1 \<Longrightarrow> 0 \<le> float_or (Some v) 0.5 \<and> float_or (Some v) 0.5 \<le> 1"
  by (simp add: float_or_def)

lemma float_or_nonneg: "ge_opt 0 x \<Longrightarrow> 0 \<le> float_or x 0.5"
  by (cases x) (simp_all add: float_or_def ge_opt_def)

lemma final_point_fields_valid:
  assumes "valid_extracted_point point" "\<forall>c\<in>set chunks. 1 \<le> page_number (metadata c)"
  shows "FinalKeyPoint (final_point_fields tsr chunks point) = Inr (final_point_fields tsr chunks point)"
proof -
  let ?quote = "str_or (supporting_quote point) (summary point)"
  let ?found = "find_best_matching_chunk tsr ?quote chunks (page_start point)"
  let ?page = "case fst ?found of Some best_chunk \<Rightarrow> Some (page_number (metadata best_chunk))
                  | None \<Rightarrow> page_start point"
  have page: "ge_opt 1 ?page"
  proof (cases "fst ?found")
    case None
    with assms(1) show ?thesis by (simp add: valid_extracted_point_def)
  next
    case (Some c)
    from find_best_member [OF Some] assms(2) have "1 \<le> page_number (metadata c)" by blast
    with Some show ?thesis by (simp add: ge_opt_def)
  qed
  have imp: "0 \<le> float_or (Some (importance_score point)) 0.5
             \<and> float_or (Some (importance_score point)) 0.5 \<le> 1"
    using assms(1) by (intro float_or_range) (simp_all add: valid_extracted_point_def)
  have ret: "0 \<le> float_or (retrieval_score point) 0.5"
    using assms(1) by (intro float_or_nonneg) (simp add: valid_extracted_point_def)
  have conf: "0 \<le> snd ?found" by (rule find_best_confidence_nonneg)
  have comb: "0 \<le> 0.5 * float_or (Some (importance_score point)) 0.5
                    + 0.3 * float_or (retrieval_score point) 0.5 + 0.2 * snd ?found"
    using imp ret conf by simp
  have "valid_extracted_point (final_point_fields tsr chunks point)"
    unfolding valid_extracted_point_def
    using assms(1) page imp ret comb
    by (simp add: final_point_fields_def Let_def valid_extracted_point_def ge_opt_def)
  then show ?thesis by (simp add: FinalKeyPoint_def final_point_fields_def Let_def)
qed

lemma FinalKeyPoint_Inr: "FinalKeyPoint f = Inr g \<Longrightarrow> g = f"
  by (simp add: FinalKeyPoint_def split: if_splits)

lemma final_points_loop_Inr:
  "final_points_loop tsr chunks points acc = Inr fs \<Longrightarrow>
     fs = acc @ map (final_point_fields tsr chunks) points"
proof (induction points arbitrary: acc)
  case Nil
  then show ?case by simp
next
  case (Cons p ps)
  from Cons.prems obtain g where g: "FinalKeyPoint (final_point_fields tsr chunks p) = Inr g"
    and rest: "final_points_loop tsr chunks ps (acc @ [g]) = Inr fs"
    by (auto split: sum.splits)
  from FinalKeyPoint_Inr [OF g] Cons.IH [OF rest] show ?case by simp
qed

lemma final_points_loop_valid:
  assumes "\<forall>p\<in>set points. valid_extracted_point p" "\<forall>c\<in>set chunks. 1 \<le> page_number (metadata c)"
  shows "final_points_loop tsr chunks points acc = Inr (acc @ map (final_point_fields tsr chunks) points)"
  using assms(1)
proof (induction points arbitrary: acc)
  case Nil
  then show ?case by simp
next
  case (Cons p ps)
  then have "FinalKeyPoint (final_point_fields tsr chunks p) = Inr (final_point_fields tsr chunks p)"
    using final_point_fields_valid [OF _ assms(2)] by simp
  with Cons show ?case by simp
qed

lemma sort_descending_sorted: "sorted_wrt (\<ge>) (map score_key (sort_descending xs))"
proof -
  have "sorted (map (\<lambda>x. - score_key x) (sort_descending xs))"
    unfolding sort_descending_def by (rule sorted_sort_key)
  then show ?thesis by (simp add: sorted_map sorted_wrt_map)
qed

lemma sort_descending_stable:
  "filter (\<lambda>x. score_key x = s) (sort_descending xs) = filter (\<lambda>x. score_key x = s) xs"
  using sort_key_stable [of "\<lambda>x. - score_key x" "- s" xs] by (simp add: sort_descending_def)

lemma assign_ranks_length: "length (assign_ranks i xs) = length xs"
  by (induction xs arbitrary: i) simp_all

lemma assign_ranks_rank:
  "map final_rank (assign_ranks i xs) = map (\<lambda>k. i + int k) [0..<length xs]"
proof (induction xs arbitrary: i)
  case Nil
  then show ?case by simp
next
  case (Cons x xs)
  show ?case
    unfolding length_Cons upt_shift using Cons [of "i + 1"] by simp
qed

lemma assign_ranks_unrank:
  "map (\<lambda>f. f\<lparr>final_rank := r\<rparr>) (assign_ranks i xs) = map (\<lambda>f. f\<lparr>final_rank := r\<rparr>) xs"
  by (induction xs arbitrary: i) simp_all

lemma assign_ranks_score: "map score_key (assign_ranks i xs) = map score_key xs"
  by (induction xs arbitrary: i) (simp_all add: score_key_def)

lemma final_point_fields_rank: "(final_point_fields tsr chunks p)\<lparr>final_rank := 1\<rparr> = final_point_fields tsr chunks p"
  by (simp add: final_point_fields_def Let_def)

lemma ranks_from_one: "map (\<lambda>k. 1 + int k) [0..<n] = map int [1..<Suc n]"
proof -
  have "map int [Suc 0..<Suc n] = map int (map Suc [0..<n])"
    by (simp only: map_Suc_upt)
  then show ?thesis by (simp add: comp_def add.commute del: upt_Suc)
qed

lemma process_and_rank_Inr:
  assumes "0 \<le> top_k" "process_and_rank tsr top_k points chunks = Inr out"
  shows "out = assign_ranks 1 (take (nat top_k)
                 (sort_descending (map (final_point_fields tsr chunks) points)))"
proof -
  from assms(2) obtain fs where fs: "final_points_loop tsr chunks points [] = Inr fs"
    and out: "out = assign_ranks 1 (py_slice (sort_descending fs) 0 top_k)"
    by (auto simp: process_and_rank_def split: sum.splits)
  from final_points_loop_Inr [OF fs] have "fs = map (final_point_fields tsr chunks) points" by simp
  with out assms(1) show ?thesis by (simp add: py_slice_take)
qed

lemma sorted_candidates_unranked:
  "map (\<lambda>f. f\<lparr>final_rank := 1\<rparr>) (take n (sort_descending (map (final_point_fields tsr chunks) points)))
     = take n (sort_descending (map (final_point_fields tsr chunks) points))"
proof (rule map_idI)
  fix f
  assume "f \<in> set (take n (sort_descending (map (final_point_fields tsr chunks) points)))"
  then have "f \<in> set (sort_descending (map (final_point_fields tsr chunks) points))"
    by (rule in_set_takeD)
  then obtain p where "f = final_point_fields tsr chunks p"
    by (auto simp: sort_descending_def)
  then show "f\<lparr>final_rank := 1\<rparr> = f" by (simp add: final_point_fields_rank)
qed

lemma sorted_wrt_take_prefix: "sorted_wrt R xs \<Longrightarrow> sorted_wrt R (take n xs)"
  using sorted_wrt_append [of R "take n xs" "drop n xs"] by simp

text \<open>
  C3. For \<open>top_k \<ge> 0\<close>, whenever \<open>process_and_rank\<close> returns a list, the list has
  \<open>N = min(top_k, number of points)\<close> elements, its \<open>final_rank\<close> values are
  \<open>1, ..., N\<close> in order, its \<open>combined_score\<close> values are in descending order, it is
  the first \<open>N\<close> elements of the sorted candidates (ranks aside), and for every score the
  output points with that score are an initial part of the candidates with that score in
  input order. For points that satisfy the schema and chunks with page numbers from 1
  on, it does return a list.
\<close>

theorem rank_contiguity:
  assumes "0 \<le> top_k"
  shows "(\<forall>out. process_and_rank tsr top_k points chunks = Inr out \<longrightarrow>
            length out = min (nat top_k) (length points)
          \<and> map final_rank out = map int [1..<Suc (length out)]
          \<and> sorted_wrt (\<ge>) (map score_key out)
          \<and> (\<forall>f\<in>set out. combined_score f = Some (score_key f))
          \<and> map (\<lambda>f. f\<lparr>final_rank := 1\<rparr>) out =
              take (nat top_k) (sort_descending (map (final_point_fields tsr chunks) points))
          \<and> (\<forall>s. prefix (filter (\<lambda>f. score_key f = s) (map (\<lambda>f. f\<lparr>final_rank := 1\<rparr>) out))
                          (filter (\<lambda>f. score_key f = s) (map (final_point_fields tsr chunks) points))))
       \<and> ((\<forall>p\<in>set points. valid_extracted_point p) \<and> (\<forall>c\<in>set chunks. 1 \<le> page_number (metadata c))
            \<longrightarrow> (\<exists>out. process_and_rank tsr top_k points chunks = Inr out))"
proof (intro conjI allI impI)
  fix out
  assume run: "process_and_rank tsr top_k points chunks = Inr out"
  let ?cands = "map (final_point_fields tsr chunks) points"
  let ?top = "take (nat top_k) (sort_descending ?cands)"
  have out: "out = assign_ranks 1 ?top"
    by (rule process_and_rank_Inr [OF assms run])
  show len: "length out = min (nat top_k) (length points)"
    by (simp add: out assign_ranks_length sort_descending_def min.commute)
  show "map final_rank out = map int [1..<Suc (length out)]"
    using assign_ranks_rank [of 1 ?top] ranks_from_one [of "length ?top"]
    by (simp only: out assign_ranks_length)
  have scores: "map score_key out = map score_key ?top"
    by (simp only: out assign_ranks_score)
  have "sorted_wrt (\<ge>) (take (nat top_k) (map score_key (sort_descending ?cands)))"
    by (rule sorted_wrt_take_prefix) (rule sort_descending_sorted)
  then show "sorted_wrt (\<ge>) (map score_key out)"
    by (simp only: scores take_map)
  show unr: "map (\<lambda>f. f\<lparr>final_rank := 1\<rparr>) out = ?top"
    by (simp only: out assign_ranks_unrank sorted_candidates_unranked)
  show "\<forall>f\<in>set out. combined_score f = Some (score_key f)"
  proof
    fix f
    assume "f \<in> set out"
    then have "f\<lparr>final_rank := 1\<rparr> \<in> set (map (\<lambda>f. f\<lparr>final_rank := 1\<rparr>) out)" by simp
    then have "f\<lparr>final_rank := 1\<rparr> \<in> set (sort_descending ?cands)"
      unfolding unr by (rule in_set_takeD)
    then obtain p where "f\<lparr>final_rank := 1\<rparr> = final_point_fields tsr chunks p"
      by (auto simp: sort_descending_def)
    then have "combined_score (f\<lparr>final_rank := 1\<rparr>) = combined_score (final_point_fields tsr chunks p)"
      by simp
    then have "\<exists>v. combined_score f = Some v"
      by (simp add: final_point_fields_def Let_def)
    then show "combined_score f = Some (score_key f)"
      by (auto simp: score_key_def)
  qed
  show "prefix (filter (\<lambda>f. score_key f = s) (map (\<lambda>f. f\<lparr>final_rank := 1\<rparr>) out))
                          (filter (\<lambda>f. score_key f = s) ?cands)" for s
  proof -
    have "prefix (filter (\<lambda>f. score_key f = s) ?top)
                 (filter (\<lambda>f. score_key f = s) (sort_descending ?cands))"
      by (intro filter_mono_prefix take_is_prefix)
    then show ?thesis
      by (simp only: unr sort_descending_stable)
  qed
next
  assume "(\<forall>p\<in>set points. valid_extracted_point p) \<and> (\<forall>c\<in>set chunks. 1 \<le> page_number (metadata c))"
  then have "final_points_loop tsr chunks points [] =
      Inr ([] @ map (final_point_fields tsr chunks) points)"
    by (intro final_points_loop_valid) simp_all
  then show "\<exists>out. process_and_rank tsr top_k points chunks = Inr out"
    by (simp add: process_and_rank_def)
qed

theorem rank_contiguity_witness:
  "(0::int) \<le> 2
   \<and> valid_extracted_point (sample_point ''point A'' 0.4 None None (Some 0.5))
   \<and> valid_extracted_point (sample_point ''point B'' 0.8 None None (Some 0.5))
   \<and> valid_extracted_point (sample_point ''point C'' 0.4 None None (Some 0.5))
   \<and> (\<exists>out. process_and_rank sample_ratio 2
                [sample_point ''point A'' 0.4 None None (Some 0.5),
                 sample_point ''point B'' 0.8 None None (Some 0.5),
                 sample_point ''point C'' 0.4 None None (Some 0.5)] [] = Inr out
          \<and> length out = 2
          \<and> map final_rank out = [1, 2]
          \<and> map summary out = [''point B'', ''point A'']
          \<and> map combined_score out = [Some 0.55, Some 0.35]
          \<and> sorted_wrt (\<ge>) (map score_key out))"
proof -
  let ?A = "sample_point ''point A'' 0.4 None None (Some 0.5)"
  let ?B = "sample_point ''point B'' 0.8 None None (Some 0.5)"
  let ?C = "sample_point ''point C'' 0.4 None None (Some 0.5)"
  let ?out = "[(final_point_fields sample_ratio [] ?B)\<lparr>final_rank := 1\<rparr>,
               (final_point_fields sample_ratio [] ?A)\<lparr>final_rank := 2\<rparr>]"
  have top: "(0::int) \<le> 2" by simp
  have run: "process_and_rank sample_ratio 2 [?A, ?B, ?C] [] = Inr ?out"
    by code_simp
  have valid: "valid_extracted_point ?A" "valid_extracted_point ?B" "valid_extracted_point ?C"
    by (simp_all add: valid_extracted_point_def sample_point_def ge_opt_def)
  from rank_contiguity [OF top, of sample_ratio "[?A, ?B, ?C]" "[]"] run
  have props: "length ?out = min (nat 2) (length [?A, ?B, ?C])
      \<and> map final_rank ?out = map int [1..<Suc (length ?out)]
      \<and> sorted_wrt (\<ge>) (map score_key ?out)"
    by blast
  have ranks: "map int [1..<Suc (length ?out)] = [1, 2]"
    by (simp add: upt_rec)
  have summaries: "map summary ?out = [''point B'', ''point A'']"
    by (simp add: final_point_fields_def sample_point_def Let_def)
  have scores: "map combined_score ?out = [Some 0.55, Some 0.35]"
    by (simp add: final_point_fields_def sample_point_def Let_def find_best_matching_chunk_def
        float_or_def)
  from props have len: "length ?out = 2" by simp
  from top valid run len props ranks summaries scores show ?thesis
    by (intro conjI exI [of _ ?out]) simp_all
qed

text \<open>
  C2. The code at a point with \<open>importance_score = 0.0\<close> and \<open>retrieval_score = 0.0\<close>:
  both values are present, and both are replaced by 0.5, so the combined score is
  \<open>0.5 * 0.5 + 0.3 * 0.5 + 0.2 * 0 = 0.4\<close> and not \<open>0\<close>.
\<close>

theorem zero_scores_replaced:
  "map_sum id (map (\<lambda>f. (importance_score f, retrieval_score f, combined_score f)))
     (process_and_rank sample_ratio 10 [sample_point ''point Z'' 0 None None (Some 0)] [])
   = Inr [(0.5, Some 0.5, Some 0.4)]"
  by code_simp

lemma process_and_rank_member:
  assumes "process_and_rank tsr top_k points chunks = Inr out" "f \<in> set out"
  shows "\<exists>p\<in>set points. f\<lparr>final_rank := 1\<rparr> = final_point_fields tsr chunks p"
proof -
  from assms(1) obtain fs where fs: "final_points_loop tsr chunks points [] = Inr fs"
    and out: "out = assign_ranks 1 (py_slice (sort_descending fs) 0 top_k)"
    by (auto simp: process_and_rank_def split: sum.splits)
  from final_points_loop_Inr [OF fs] have cands: "fs = map (final_point_fields tsr chunks) points"
    by simp
  let ?sl = "py_slice (sort_descending fs) 0 top_k"
  from assms(2) have "f\<lparr>final_rank := 1\<rparr> \<in> set (map (\<lambda>f. f\<lparr>final_rank := 1\<rparr>) out)"
    by simp
  then have "f\<lparr>final_rank := 1\<rparr> \<in> set (map (\<lambda>f. f\<lparr>final_rank := 1\<rparr>) ?sl)"
    by (simp only: out assign_ranks_unrank)
  then obtain g where g: "g \<in> set ?sl" "f\<lparr>final_rank := 1\<rparr> = g\<lparr>final_rank := 1\<rparr>"
    by auto
  from g(1) set_py_slice [of "sort_descending fs" 0 top_k] have "g \<in> set fs"
    by (auto simp: sort_descending_def)
  with cands obtain p where p: "p \<in> set points" "g = final_point_fields tsr chunks p"
    by auto
  with g(2) show ?thesis by (auto simp: final_point_fields_rank)
qed

text \<open>
  C9. A point without a supporting quote (\<open>None\<close> or the empty string) gets its summary
  as the supporting quote of its \<open>FinalKeyPoint\<close>. Every element of the output of
  \<open>process_and_rank\<close> is, rank aside, the \<open>FinalKeyPoint\<close> of an input point; its
  supporting quote is the quote of that point, or the summary when the quote is absent,
  and so is not empty when the summary is not empty.
\<close>

theorem supporting_quote_fallback:
  "(supporting_quote point = None \<or> supporting_quote point = Some [] \<longrightarrow>
      supporting_quote (final_point_fields tsr chunks point) = Some (summary point))
   \<and> (\<forall>out. process_and_rank tsr top_k points chunks = Inr out \<longrightarrow>
        (\<forall>f\<in>set out. \<exists>p\<in>set points.
            f\<lparr>final_rank := 1\<rparr> = final_point_fields tsr chunks p
          \<and> supporting_quote f = Some (str_or (supporting_quote p) (summary p))
          \<and> (supporting_quote p = None \<or> supporting_quote p = Some [] \<longrightarrow>
                supporting_quote f = Some (summary p))
          \<and> (summary p \<noteq> [] \<longrightarrow> supporting_quote f \<noteq> None \<and> supporting_quote f \<noteq> Some [])))"
proof (intro conjI allI impI ballI)
  assume "supporting_quote point = None \<or> supporting_quote point = Some []"
  then show "supporting_quote (final_point_fields tsr chunks point) = Some (summary point)"
    by (auto simp: final_point_fields_def Let_def str_or_def)
next
  fix out f
  assume run: "process_and_rank tsr top_k points chunks = Inr out" and f: "f \<in> set out"
  from process_and_rank_member [OF run f] obtain p where p: "p \<in> set points"
    and fp: "f\<lparr>final_rank := 1\<rparr> = final_point_fields tsr chunks p"
    by blast
  have "supporting_quote f = supporting_quote (f\<lparr>final_rank := 1\<rparr>)" by simp
  also have "\<dots> = Some (str_or (supporting_quote p) (summary p))"
    unfolding fp by (simp add: final_point_fields_def Let_def)
  finally have q: "supporting_quote f = Some (str_or (supporting_quote p) (summary p))" .
  have absent: "supporting_quote p = None \<or> supporting_quote p = Some [] \<longrightarrow>
                supporting_quote f = Some (summary p)"
    unfolding q by (auto simp: str_or_def)
  have nonempty: "summary p \<noteq> [] \<longrightarrow> supporting_quote f \<noteq> None \<and> supporting_quote f \<noteq> Some []"
    unfolding q by (auto simp: str_or_def split: option.splits)
  from p fp q absent nonempty
  show "\<exists>p\<in>set points.
            f\<lparr>final_rank := 1\<rparr> = final_point_fields tsr chunks p
          \<and> supporting_quote f = Some (str_or (supporting_quote p) (summary p))
          \<and> (supporting_quote p = None \<or> supporting_quote p = Some [] \<longrightarrow>
                supporting_quote f = Some (summary p))
          \<and> (summary p \<noteq> [] \<longrightarrow> supporting_quote f \<noteq> None \<and> supporting_quote f \<noteq> Some [])"
    by blast
qed

theorem supporting_quote_fallback_witness:
  "supporting_quote (sample_point ''point A'' 0.4 None None (Some 0.5)) = None
   \<and> supporting_quote (final_point_fields sample_ratio []
        (sample_point ''point A'' 0.4 None None (Some 0.5))) = Some ''point A''
   \<and> (\<exists>out. process_and_rank sample_ratio 10
                [sample_point ''point A'' 0.4 None None (Some 0.5),
                 sample_point ''point B'' 0.8 (Some []) None (Some 0.5),
                 sample_point ''point C'' 0.6 (Some ''quoted'') None (Some 0.5)] [] = Inr out
          \<and> map supporting_quote out = [Some ''point B'', Some ''quoted'', Some ''point A'']
          \<and> (\<forall>f\<in>set out. supporting_quote f \<noteq> None \<and> supporting_quote f \<noteq> Some []))"
proof -
  let ?A = "sample_point ''point A'' 0.4 None None (Some 0.5)"
  let ?B = "sample_point ''point B'' 0.8 (Some []) None (Some 0.5)"
  let ?C = "sample_point ''point C'' 0.6 (Some ''quoted'') None (Some 0.5)"
  let ?out = "[(final_point_fields sample_ratio [] ?B)\<lparr>final_rank := 1\<rparr>,
               (final_point_fields sample_ratio [] ?C)\<lparr>final_rank := 2\<rparr>,
               (final_point_fields sample_ratio [] ?A)\<lparr>final_rank := 3\<rparr>]"
  note inst = supporting_quote_fallback [of ?A sample_ratio "[]" 10 "[?A, ?B, ?C]"]
  have absent: "supporting_quote ?A = None" by (simp add: sample_point_def)
  with inst have single: "supporting_quote (final_point_fields sample_ratio [] ?A) = Some (summary ?A)"
    by blast
  have run: "process_and_rank sample_ratio 10 [?A, ?B, ?C] [] = Inr ?out"
    by code_simp
  have quotes: "map supporting_quote ?out = [Some ''point B'', Some ''quoted'', Some ''point A'']"
    by (simp add: final_point_fields_def sample_point_def Let_def str_or_def)
  have summaries: "\<forall>p\<in>set [?A, ?B, ?C]. summary p \<noteq> []"
    by (simp add: sample_point_def)
  have filled: "\<forall>f\<in>set ?out. supporting_quote f \<noteq> None \<and> supporting_quote f \<noteq> Some []"
  proof
    fix f
    assume "f \<in> set ?out"
    with inst run obtain p where "p \<in> set [?A, ?B, ?C]"
      "summary p \<noteq> [] \<longrightarrow> supporting_quote f \<noteq> None \<and> supporting_quote f \<noteq> Some []"
      by blast
    with summaries show "supporting_quote f \<noteq> None \<and> supporting_quote f \<noteq> Some []"
      by blast
  qed
  from single have "supporting_quote (final_point_fields sample_ratio [] ?A) = Some ''point A''"
    by (simp add: sample_point_def)
  with absent run quotes filled show ?thesis
    by (intro conjI exI [of _ ?out])
qed

text \<open>
  C1 as stated fails when the wrongly reported page has chunks of its own. Chunk C on
  page 1 has exactly the text of the quote, the point reports page 2, and page 2 has a
  chunk with another text: only the chunk of page 2 is a candidate, nothing matches, the
  confidence is 0 and \<open>page_start\<close> stays 2.
\<close>

theorem wrong_page_counterexample:
  "chunk_text (sample_chunk ''abc'' 1 0) = ''abc''
   \<and> page_number (metadata (sample_chunk ''abc'' 1 0)) = 1
   \<and> find_best_matching_chunk sample_ratio ''abc''
        [sample_chunk ''xyz'' 2 0, sample_chunk ''abc'' 1 0] (Some 2) = (None, 0)
   \<and> map_sum id (map page_start)
        (process_and_rank sample_ratio 10
           [sample_point ''the argument'' 0.9 (Some ''abc'') (Some 2) (Some 0.5)]
           [sample_chunk ''xyz'' 2 0, sample_chunk ''abc'' 1 0])
       = Inr [Some 2]"
  by code_simp

text \<open>
  C1 (amended). Let the supporting quote of a point be exactly the text of chunk C, let
  \<open>token_set_ratio\<close> give 100 for the quote against itself and at most 100 for every
  chunk, and let no chunk before C in the chunk list reach 100. When no chunk is recorded
  on the page that the point reports, the candidates are all chunks, the best chunk is C
  with confidence 1.0, and \<open>page_start\<close> is overwritten with the page of C.
\<close>

theorem quote_reconciliation:
  assumes "supporting_quote point = Some quote" "quote \<noteq> []"
    and "chunks = pre @ C # post" "chunk_text C = quote"
    and "tsr (lower quote) (lower quote) = 100"
    and "\<forall>c\<in>set chunks. tsr (lower quote) (lower (chunk_text c)) \<le> 100"
    and "\<forall>c\<in>set pre. tsr (lower quote) (lower (chunk_text c)) < 100"
    and "\<forall>c\<in>set chunks. Some (page_number (metadata c)) \<noteq> page_start point"
  shows "find_best_matching_chunk tsr quote chunks (page_start point) = (Some C, 1)
       \<and> page_start (final_point_fields tsr chunks point) = Some (page_number (metadata C))
       \<and> Some (page_number (metadata C)) \<noteq> page_start point
       \<and> combined_score (final_point_fields tsr chunks point) =
           Some (0.5 * float_or (Some (importance_score point)) 0.5
                 + 0.3 * float_or (retrieval_score point) 0.5 + 0.2 * 1)
       \<and> (valid_extracted_point point \<and> (\<forall>c\<in>set chunks. 1 \<le> page_number (metadata c)) \<and> 1 \<le> top_k
            \<longrightarrow> process_and_rank tsr top_k [point] chunks = Inr [final_point_fields tsr chunks point])"
proof -
  have pool: "candidate_chunks chunks (page_start point) = pre @ C # post"
    using candidate_chunks_fallback [OF assms(8)] assms(3) by simp
  have "best_match_loop tsr quote (pre @ C # post) None 0 = (Some C, 1)"
    using assms(3-7) by (intro best_match_loop_first) simp_all
  with pool assms(2,3)
  have found: "find_best_matching_chunk tsr quote chunks (page_start point) = (Some C, 1)"
    by (simp add: find_best_matching_chunk_def)
  have q: "str_or (supporting_quote point) (summary point) = quote"
    using assms(1,2) by (simp add: str_or_def)
  have page: "page_start (final_point_fields tsr chunks point) = Some (page_number (metadata C))"
    by (simp add: final_point_fields_def Let_def q found)
  have wrong: "Some (page_number (metadata C)) \<noteq> page_start point"
    using assms(3,8) by simp
  have comb: "combined_score (final_point_fields tsr chunks point) =
           Some (0.5 * float_or (Some (importance_score point)) 0.5
                 + 0.3 * float_or (retrieval_score point) 0.5 + 0.2 * 1)"
    by (simp add: final_point_fields_def Let_def q found)
  have run: "process_and_rank tsr top_k [point] chunks = Inr [final_point_fields tsr chunks point]"
    if "valid_extracted_point point \<and> (\<forall>c\<in>set chunks. 1 \<le> page_number (metadata c)) \<and> 1 \<le> top_k"
  proof -
    from that have "final_points_loop tsr chunks [point] [] =
        Inr ([] @ map (final_point_fields tsr chunks) [point])"
      by (intro final_points_loop_valid) simp_all
    moreover from that have "Suc 0 \<le> nat top_k" by linarith
    with that have "py_slice [final_point_fields tsr chunks point] 0 top_k
        = [final_point_fields tsr chunks point]"
      by (simp add: py_slice_take)
    ultimately show ?thesis
      by (simp add: process_and_rank_def sort_descending_def final_point_fields_rank)
  qed
  from found page wrong comb run show ?thesis by blast
qed

lemma sample_ratio_le: "sample_ratio a b \<le> 100"
  by (simp add: sample_ratio_def)

theorem quote_reconciliation_witness:
  "supporting_quote (sample_point ''the argument'' 0.9 (Some ''abc'') (Some 2) (Some 0.5)) = Some ''abc''
   \<and> chunk_text (sample_chunk ''abc'' 1 0) = ''abc''
   \<and> page_start (sample_point ''the argument'' 0.9 (Some ''abc'') (Some 2) (Some 0.5)) = Some 2
   \<and> page_number (metadata (sample_chunk ''xyz'' 3 0)) \<noteq> 2
   \<and> page_number (metadata (sample_chunk ''abc'' 1 0)) \<noteq> 2
   \<and> find_best_matching_chunk sample_ratio ''abc''
        [sample_chunk ''xyz'' 3 0, sample_chunk ''abc'' 1 0] (Some 2)
       = (Some (sample_chunk ''abc'' 1 0), 1)
   \<and> page_start (final_point_fields sample_ratio [sample_chunk ''xyz'' 3 0, sample_chunk ''abc'' 1 0]
        (sample_point ''the argument'' 0.9 (Some ''abc'') (Some 2) (Some 0.5))) = Some 1
   \<and> map_sum id (map page_start)
        (process_and_rank sample_ratio 10
           [sample_point ''the argument'' 0.9 (Some ''abc'') (Some 2) (Some 0.5)]
           [sample_chunk ''xyz'' 3 0, sample_chunk ''abc'' 1 0])
       = Inr [Some 1]"
proof -
  let ?p = "sample_point ''the argument'' 0.9 (Some ''abc'') (Some 2) (Some 0.5)"
  let ?D = "sample_chunk ''xyz'' 3 0"
  let ?C = "sample_chunk ''abc'' 1 0"
  have h1: "supporting_quote ?p = Some ''abc''" by (simp add: sample_point_def)
  have h2: "''abc'' \<noteq> []" by simp
  have h3: "[?D, ?C] = [?D] @ ?C # []" by simp
  have h4: "chunk_text ?C = ''abc''" by code_simp
  have h5: "sample_ratio (lower ''abc'') (lower ''abc'') = 100" by code_simp
  have h6: "\<forall>c\<in>set [?D, ?C]. sample_ratio (lower ''abc'') (lower (chunk_text c)) \<le> 100"
    by (simp add: sample_ratio_le)
  have "sample_ratio (lower ''abc'') (lower (chunk_text ?D)) < 100" by code_simp
  then have h7: "\<forall>c\<in>set [?D]. sample_ratio (lower ''abc'') (lower (chunk_text c)) < 100"
    by simp
  have pages: "page_number (metadata ?D) = 3" "page_number (metadata ?C) = 1"
    by (simp_all add: sample_chunk_def make_chunk_def)
  have ps: "page_start ?p = Some 2" by (simp add: sample_point_def)
  have h8: "\<forall>c\<in>set [?D, ?C]. Some (page_number (metadata c)) \<noteq> page_start ?p"
    by (simp add: pages sample_point_def)
  have valid: "valid_extracted_point ?p \<and> (\<forall>c\<in>set [?D, ?C]. 1 \<le> page_number (metadata c))
      \<and> (1::int) \<le> 10"
    by (simp add: pages valid_extracted_point_def sample_point_def ge_opt_def)
  note inst = quote_reconciliation [where point = ?p and quote = "''abc''" and chunks = "[?D, ?C]"
      and pre = "[?D]" and C = ?C and post = "[]" and tsr = sample_ratio and top_k = 10,
      OF h1 h2 h3 h4 h5 h6 h7 h8]
  from inst have found: "find_best_matching_chunk sample_ratio ''abc'' [?D, ?C] (Some 2) = (Some ?C, 1)"
    by (simp add: sample_point_def)
  from inst have page: "page_start (final_point_fields sample_ratio [?D, ?C] ?p) = Some 1"
    by (simp add: pages)
  from inst valid have "process_and_rank sample_ratio 10 [?p] [?D, ?C]
      = Inr [final_point_fields sample_ratio [?D, ?C] ?p]"
    by blast
  with page have run: "map_sum id (map page_start) (process_and_rank sample_ratio 10 [?p] [?D, ?C])
      = Inr [Some 1]"
    by simp
  have other: "page_number (metadata ?D) \<noteq> 2" "page_number (metadata ?C) \<noteq> 2"
    by (simp_all add: pages)
  from h1 h4 ps other found page run show ?thesis
    by (intro conjI)
qed

section \<open>Properties of the vector store\<close>


text \<open>
  C5 as stated fails in two ways. With the default \<open>force_new=False\<close>, on a store that
  has an index, a chunk and the document \<open>old\<close>, a second \<open>initialize_index\<close> returns
  the store as it is, with the prior index and its chunk list. And \<open>initialize_index\<close>
  makes no check of the dimension: with a constructor that accepts the dimension 0, the
  call with \<open>force_new=True\<close> raises nothing and installs the new index.
\<close>

theorem initialize_keeps_index_counterexample:
  "initialize_index (sample_engine [])
      ''new'' False
      \<lparr> vs_dimension = 384, vs_m = 32, vs_ef_construction = 64, vs_index = Some 1,
        vs_chunks = [sample_chunk ''abc'' 1 0], vs_doc_id = Some ''old'' \<rparr>
   = (None, \<lparr> vs_dimension = 384, vs_m = 32, vs_ef_construction = 64, vs_index = Some 1,
              vs_chunks = [sample_chunk ''abc'' 1 0], vs_doc_id = Some ''old'' \<rparr>)
   \<and> initialize_index (sample_engine []) ''new'' True
        \<lparr> vs_dimension = 0, vs_m = 32, vs_ef_construction = 64, vs_index = None,
          vs_chunks = [], vs_doc_id = None \<rparr>
     = (None, \<lparr> vs_dimension = 0, vs_m = 32, vs_ef_construction = 64, vs_index = Some 0,
                vs_chunks = [], vs_doc_id = Some ''new'' \<rparr>)"
  by (simp add: initialize_index_def sample_engine_def)

text \<open>
  C5 (amended). With \<open>force_new=True\<close>, as the pipeline calls it, or on a store without
  an index, \<open>initialize_index\<close> constructs a new index and sets its \<open>efConstruction\<close>;
  when both succeed, the store has the new index, the empty chunk list and the new
  document, whatever it held before. It raises, and then a \<open>RuntimeError\<close>, exactly
  when the constructor of the engine or the assignment to \<open>efConstruction\<close> raises; it
  makes no check of the dimension itself. With an index present and \<open>force_new=False\<close>
  it changes nothing.
\<close>

theorem initialize_index_recreates:
  "(force_new \<or> vs_index vs = None \<longrightarrow>
      (\<forall>ix ix'. IndexHNSWFlat engine (vs_dimension vs) (vs_m vs) = Inr ix
           \<and> set_efConstruction engine ix (vs_ef_construction vs) = Inr ix' \<longrightarrow>
         initialize_index engine doc force_new vs =
           (None, vs\<lparr> vs_index := Some ix', vs_doc_id := Some doc, vs_chunks := [] \<rparr>))
    \<and> (\<forall>vs'. initialize_index engine doc force_new vs = (None, vs') \<longrightarrow>
           vs_chunks vs' = [] \<and> vs_doc_id vs' = Some doc \<and> vs_index vs' \<noteq> None
         \<and> vs_dimension vs' = vs_dimension vs \<and> vs_m vs' = vs_m vs
         \<and> vs_ef_construction vs' = vs_ef_construction vs)
    \<and> (fst (initialize_index engine doc force_new vs) \<noteq> None \<longleftrightarrow>
         (\<exists>e. IndexHNSWFlat engine (vs_dimension vs) (vs_m vs) = Inl e)
         \<or> (\<exists>ix e. IndexHNSWFlat engine (vs_dimension vs) (vs_m vs) = Inr ix
                \<and> set_efConstruction engine ix (vs_ef_construction vs) = Inl e))
    \<and> (\<forall>e. fst (initialize_index engine doc force_new vs) = Some e \<longrightarrow> e = RuntimeError))
   \<and> (vs_index vs \<noteq> None \<and> \<not> force_new \<longrightarrow>
        initialize_index engine doc force_new vs = (None, vs))"
proof (intro conjI impI)
  assume a: "force_new \<or> vs_index vs = None"
  show "\<forall>ix ix'. IndexHNSWFlat engine (vs_dimension vs) (vs_m vs) = Inr ix
           \<and> set_efConstruction engine ix (vs_ef_construction vs) = Inr ix' \<longrightarrow>
         initialize_index engine doc force_new vs =
           (None, vs\<lparr> vs_index := Some ix', vs_doc_id := Some doc, vs_chunks := [] \<rparr>)"
    using a by (auto simp: initialize_index_def)
  show "\<forall>vs'. initialize_index engine doc force_new vs = (None, vs') \<longrightarrow>
           vs_chunks vs' = [] \<and> vs_doc_id vs' = Some doc \<and> vs_index vs' \<noteq> None
         \<and> vs_dimension vs' = vs_dimension vs \<and> vs_m vs' = vs_m vs
         \<and> vs_ef_construction vs' = vs_ef_construction vs"
    using a by (auto simp: initialize_index_def split: sum.splits)
  show "fst (initialize_index engine doc force_new vs) \<noteq> None \<longleftrightarrow>
         (\<exists>e. IndexHNSWFlat engine (vs_dimension vs) (vs_m vs) = Inl e)
         \<or> (\<exists>ix e. IndexHNSWFlat engine (vs_dimension vs) (vs_m vs) = Inr ix
                \<and> set_efConstruction engine ix (vs_ef_construction vs) = Inl e)"
    using a by (auto simp: initialize_index_def split: sum.splits)
  show "\<forall>e. fst (initialize_index engine doc force_new vs) = Some e \<longrightarrow> e = RuntimeError"
    by (auto simp: initialize_index_def split: sum.splits if_splits)
next
  assume "vs_index vs \<noteq> None \<and> \<not> force_new"
  then show "initialize_index engine doc force_new vs = (None, vs)"
    by (simp add: initialize_index_def)
qed

theorem initialize_index_recreates_witness:
  "initialize_index (sample_engine []) ''new'' True
      \<lparr> vs_dimension = 384, vs_m = 32, vs_ef_construction = 64, vs_index = Some 1,
        vs_chunks = [sample_chunk ''abc'' 1 0], vs_doc_id = Some ''old'' \<rparr>
     = (None, \<lparr> vs_dimension = 384, vs_m = 32, vs_ef_construction = 64, vs_index = Some 0,
                vs_chunks = [], vs_doc_id = Some ''new'' \<rparr>)
   \<and> set_efConstruction (sample_engine []) 0 2147483648 = Inl LibraryError
   \<and> fst (initialize_index (sample_engine []) ''new'' True
        \<lparr> vs_dimension = 384, vs_m = 32, vs_ef_construction = 2147483648, vs_index = Some 1,
          vs_chunks = [sample_chunk ''abc'' 1 0], vs_doc_id = Some ''old'' \<rparr>)
     = Some RuntimeError
   \<and> initialize_index (sample_engine []) ''new'' False
        \<lparr> vs_dimension = 384, vs_m = 32, vs_ef_construction = 64, vs_index = Some 1,
          vs_chunks = [sample_chunk ''abc'' 1 0], vs_doc_id = Some ''old'' \<rparr>
     = (None, \<lparr> vs_dimension = 384, vs_m = 32, vs_ef_construction = 64, vs_index = Some 1,
                vs_chunks = [sample_chunk ''abc'' 1 0], vs_doc_id = Some ''old'' \<rparr>)"
proof -
  let ?e = "sample_engine []"
  let ?vs = "\<lparr> vs_dimension = 384, vs_m = 32, vs_ef_construction = 64, vs_index = Some (1::nat),
        vs_chunks = [sample_chunk ''abc'' 1 0], vs_doc_id = Some ''old'' \<rparr>"
  let ?big = "\<lparr> vs_dimension = 384, vs_m = 32, vs_ef_construction = 2147483648,
        vs_index = Some (1::nat), vs_chunks = [sample_chunk ''abc'' 1 0], vs_doc_id = Some ''old'' \<rparr>"
  have ctor: "IndexHNSWFlat ?e 384 32 = Inr 0"
    by (simp add: sample_engine_def)
  have ok: "set_efConstruction ?e 0 64 = Inr 0"
    by (simp add: sample_engine_def)
  have raises: "set_efConstruction ?e 0 2147483648 = Inl LibraryError"
    by (simp add: sample_engine_def)
  from ctor ok initialize_index_recreates [of True ?vs ?e "''new''"]
  have "initialize_index ?e ''new'' True ?vs =
      (None, ?vs\<lparr> vs_index := Some 0, vs_doc_id := Some ''new'', vs_chunks := [] \<rparr>)"
    by simp
  then have fresh: "initialize_index ?e ''new'' True ?vs =
      (None, \<lparr> vs_dimension = 384, vs_m = 32, vs_ef_construction = 64, vs_index = Some 0,
              vs_chunks = [], vs_doc_id = Some ''new'' \<rparr>)"
    by simp
  from ctor raises have "\<exists>ix e. IndexHNSWFlat ?e (vs_dimension ?big) (vs_m ?big) = Inr ix
      \<and> set_efConstruction ?e ix (vs_ef_construction ?big) = Inl e"
    by simp
  with initialize_index_recreates [of True ?big ?e "''new''"]
  have "fst (initialize_index ?e ''new'' True ?big) \<noteq> None"
    "\<forall>e. fst (initialize_index ?e ''new'' True ?big) = Some e \<longrightarrow> e = RuntimeError"
    by blast+
  then have fails: "fst (initialize_index ?e ''new'' True ?big) = Some RuntimeError"
    by auto
  have "vs_index ?vs \<noteq> None \<and> \<not> False" by simp
  with initialize_index_recreates [of False ?vs ?e "''new''"]
  have kept: "initialize_index ?e ''new'' False ?vs = (None, ?vs)"
    by blast
  from fresh raises fails kept show ?thesis by (intro conjI)
qed
lemma retrieval_similarity_range: "0 \<le> retrieval_similarity d \<and> retrieval_similarity d \<le> 1"
  by (simp add: retrieval_similarity_def Let_def)

lemma search_results_filter:
  "search_results stored pairs =
     map (\<lambda>p. (stored ! nat (snd p), retrieval_similarity (fst p))) (filter (in_range stored) pairs)"
  by (induction stored pairs rule: search_results.induct) (simp_all add: in_range_def)

lemma search_results_length: "length (search_results stored pairs) \<le> length pairs"
  by (simp add: search_results_filter)

lemma search_results_all:
  "\<forall>p\<in>set pairs. in_range stored p \<Longrightarrow> length (search_results stored pairs) = length pairs"
  by (simp add: search_results_filter)

lemma search_results_member:
  "(c, s) \<in> set (search_results stored pairs) \<Longrightarrow> c \<in> set stored \<and> 0 \<le> s \<and> s \<le> 1"
  by (auto simp: search_results_filter in_range_def retrieval_similarity_range)

text \<open>
  C6 as stated fails when the engine returns a label outside the chunk list, as faiss
  does with \<open>-1\<close> for a neighbour it did not find: the result loop skips the pair. With
  two chunks and \<open>top_k = 2\<close> the engine is asked for two neighbours, answers one chunk
  and one \<open>-1\<close>, and \<open>search\<close> returns one pair, not \<open>min(2, 2) = 2\<close>.
\<close>

theorem search_length_counterexample:
  "map_sum id (\<lambda>r. length (fst r))
     (search (sample_engine [(Fin 0.5, 1), (PosInf, - 1)]) sample_encode ''query'' 2 64
        \<lparr> vs_dimension = 384, vs_m = 32, vs_ef_construction = 64, vs_index = Some 2,
          vs_chunks = [sample_chunk ''abc'' 1 0, sample_chunk ''xyz'' 2 0],
          vs_doc_id = Some ''doc'' \<rparr>)
   = Inr 1
   \<and> min 2 (length [sample_chunk ''abc'' 1 0, sample_chunk ''xyz'' 2 0]) = 2"
  by (simp add: search_def encode_def sample_encode_def sample_engine_def Let_def)

text \<open>
  C6 (amended). Without an index or without chunks \<open>search\<close> returns the empty list
  and no error. Otherwise, when it returns, the engine was asked for
  \<open>min(top_k, number of chunks)\<close> neighbours, and the result is, in the order of the
  engine's answer, one pair of chunk and similarity in \<open>[0, 1]\<close> for every returned
  label that is an index of the chunk list. Its length is at most the number of returned
  pairs, and it is \<open>min(top_k, number of chunks)\<close> when the engine returns that many
  pairs and every label is in range.
\<close>

theorem search_length:
  "(vs_index vs = None \<or> vs_chunks vs = [] \<longrightarrow>
      search engine model_encode query top_k ef_search vs = Inr ([], vs))
   \<and> (\<forall>results vs'.
        vs_index vs \<noteq> None \<and> vs_chunks vs \<noteq> []
        \<and> search engine model_encode query top_k ef_search vs = Inr (results, vs') \<longrightarrow>
        (\<exists>ix query_embedding pairs.
            vs_index vs = Some ix
          \<and> index_search engine (set_efSearch engine ix ef_search) query_embedding
               (min top_k (int (length (vs_chunks vs)))) = Inr pairs
          \<and> results = map (\<lambda>p. (vs_chunks vs ! nat (snd p), retrieval_similarity (fst p)))
                         (filter (in_range (vs_chunks vs)) pairs)
          \<and> length results \<le> length pairs
          \<and> (length pairs = nat (min top_k (int (length (vs_chunks vs))))
               \<and> (\<forall>p\<in>set pairs. in_range (vs_chunks vs) p) \<longrightarrow>
             length results = min (nat top_k) (length (vs_chunks vs))))
        \<and> (\<forall>r\<in>set results. fst r \<in> set (vs_chunks vs) \<and> 0 \<le> snd r \<and> snd r \<le> 1))"
proof (intro conjI allI impI)
  assume "vs_index vs = None \<or> vs_chunks vs = []"
  then show "search engine model_encode query top_k ef_search vs = Inr ([], vs)"
    by (auto simp: search_def split: option.splits)
next
  fix results vs'
  assume a: "vs_index vs \<noteq> None \<and> vs_chunks vs \<noteq> []
        \<and> search engine model_encode query top_k ef_search vs = Inr (results, vs')"
  then obtain ix where ix: "vs_index vs = Some ix" by auto
  let ?k = "min top_k (int (length (vs_chunks vs)))"
  from a ix obtain query_embedding pairs where
    pairs: "index_search engine (set_efSearch engine ix ef_search) query_embedding ?k = Inr pairs"
    and res: "results = search_results (vs_chunks vs) pairs"
    by (auto simp: search_def Let_def split: sum.splits)
  have shape: "results = map (\<lambda>p. (vs_chunks vs ! nat (snd p), retrieval_similarity (fst p)))
                         (filter (in_range (vs_chunks vs)) pairs)"
    unfolding res by (rule search_results_filter)
  have le: "length results \<le> length pairs"
    unfolding res by (rule search_results_length)
  have k: "nat ?k = min (nat top_k) (length (vs_chunks vs))"
    by linarith
  have full: "length pairs = nat ?k \<and> (\<forall>p\<in>set pairs. in_range (vs_chunks vs) p) \<longrightarrow>
             length results = min (nat top_k) (length (vs_chunks vs))"
    unfolding res using search_results_all [of pairs "vs_chunks vs"] k by auto
  from ix pairs shape le full
  show "\<exists>ix query_embedding pairs.
            vs_index vs = Some ix
          \<and> index_search engine (set_efSearch engine ix ef_search) query_embedding
               (min top_k (int (length (vs_chunks vs)))) = Inr pairs
          \<and> results = map (\<lambda>p. (vs_chunks vs ! nat (snd p), retrieval_similarity (fst p)))
                         (filter (in_range (vs_chunks vs)) pairs)
          \<and> length results \<le> length pairs
          \<and> (length pairs = nat (min top_k (int (length (vs_chunks vs))))
               \<and> (\<forall>p\<in>set pairs. in_range (vs_chunks vs) p) \<longrightarrow>
             length results = min (nat top_k) (length (vs_chunks vs)))"
    by blast
  show "\<forall>r\<in>set results. fst r \<in> set (vs_chunks vs) \<and> 0 \<le> snd r \<and> snd r \<le> 1"
    unfolding res using search_results_member [of _ _ "vs_chunks vs" pairs] by auto
qed

theorem search_length_witness:
  "search (sample_engine [(Fin 0, 1), (Fin 1, 0)]) sample_encode ''query'' 5 64
      (new_vector_store 384 32 64)
     = Inr ([], new_vector_store 384 32 64)
   \<and> search (sample_engine [(Fin 0, 1), (Fin 1, 0)]) sample_encode ''query'' 5 64
        \<lparr> vs_dimension = 384, vs_m = 32, vs_ef_construction = 64, vs_index = Some 2,
          vs_chunks = [sample_chunk ''abc'' 1 0, sample_chunk ''xyz'' 2 0],
          vs_doc_id = Some ''doc'' \<rparr>
     = Inr ([(sample_chunk ''xyz'' 2 0, 1), (sample_chunk ''abc'' 1 0, 1 / 2)],
            \<lparr> vs_dimension = 384, vs_m = 32, vs_ef_construction = 64, vs_index = Some 2,
              vs_chunks = [sample_chunk ''abc'' 1 0, sample_chunk ''xyz'' 2 0],
              vs_doc_id = Some ''doc'' \<rparr>)
   \<and> length [(sample_chunk ''xyz'' 2 0, 1::real), (sample_chunk ''abc'' 1 0, 1 / 2)]
       = min (nat 5) (length [sample_chunk ''abc'' 1 0, sample_chunk ''xyz'' 2 0])"
proof -
  let ?e = "sample_engine [(Fin 0, 1), (Fin 1, 0)]"
  let ?cs = "[sample_chunk ''abc'' 1 0, sample_chunk ''xyz'' 2 0]"
  let ?vs = "\<lparr> vs_dimension = 384, vs_m = 32, vs_ef_construction = 64, vs_index = Some (2::nat),
          vs_chunks = ?cs, vs_doc_id = Some ''doc'' \<rparr>"
  let ?res = "[(sample_chunk ''xyz'' 2 0, 1::real), (sample_chunk ''abc'' 1 0, 1 / 2)]"
  let ?new = "new_vector_store 384 32 64 :: nat vector_store"
  have "vs_index ?new = None \<or> vs_chunks ?new = []"
    by (simp add: new_vector_store_def)
  with search_length [of ?new ?e sample_encode "''query''" 5 64]
  have empty: "search ?e sample_encode ''query'' 5 64 ?new = Inr ([], ?new)"
    by blast
  have run: "search ?e sample_encode ''query'' 5 64 ?vs = Inr (?res, ?vs)"
    by (simp add: search_def encode_def sample_encode_def sample_engine_def Let_def
        retrieval_similarity_def)
  have pre: "vs_index ?vs \<noteq> None \<and> vs_chunks ?vs \<noteq> []" by simp
  from search_length [of ?vs ?e sample_encode "''query''" 5 64] pre run
  obtain ix query_embedding pairs where
    ans: "index_search ?e (set_efSearch ?e ix 64) query_embedding
            (min 5 (int (length (vs_chunks ?vs)))) = Inr pairs"
    and full: "length pairs = nat (min 5 (int (length (vs_chunks ?vs))))
               \<and> (\<forall>p\<in>set pairs. in_range (vs_chunks ?vs) p) \<longrightarrow>
             length ?res = min (nat 5) (length (vs_chunks ?vs))"
    by blast
  from ans have pairs: "pairs = [(Fin 0, 1), (Fin 1, 0)]"
    by (simp add: sample_engine_def)
  have "length pairs = nat (min 5 (int (length (vs_chunks ?vs))))
               \<and> (\<forall>p\<in>set pairs. in_range (vs_chunks ?vs) p)"
    unfolding pairs by (simp add: in_range_def)
  with full have len: "length ?res = min (nat 5) (length ?cs)"
    by simp
  from empty run len show ?thesis by (intro conjI)
qed

section \<open>Properties of the JSON recovery\<close>


lemma map_filter_app: "List.map_filter f (xs @ ys) = List.map_filter f xs @ List.map_filter f ys"
  by (simp add: map_filter_def)

lemma first_loadable_map_filter:
  "first_loadable json_loads ms =
     (case List.map_filter json_loads ms of [] \<Rightarrow> None | v # rest \<Rightarrow> Some v)"
  by (induction ms) (simp_all split: option.splits)

lemma try_direct_parse_spec: "try_direct_parse json_loads s = first_loaded json_loads [s]"
  by (simp add: try_direct_parse_def first_loaded_def split: option.splits)

lemma code_block_loop_spec:
  "code_block_loop json_loads findall ps s =
     first_loaded json_loads (concat (map (\<lambda>p. findall p s) ps))"
proof (induction ps)
  case Nil
  then show ?case by (simp add: first_loaded_def)
next
  case (Cons p ps)
  show ?case
  proof (cases "List.map_filter json_loads (findall p s)")
    case Nil
    with Cons show ?thesis
      by (simp add: first_loadable_map_filter first_loaded_def map_filter_app)
  next
    case (Cons v rest)
    then show ?thesis
      by (simp add: first_loadable_map_filter first_loaded_def map_filter_app)
  qed
qed

lemma try_code_block_spec:
  "try_code_block json_loads findall s = first_loaded json_loads (fence_candidates findall s)"
  by (simp add: try_code_block_def code_block_loop_spec fence_candidates_def)

lemma find_from_takeWhile:
  "find_from c s i =
     (if c \<in> set s then i + int (length (takeWhile (\<lambda>x. x \<noteq> c) s)) else - 1)"
  by (induction s arbitrary: i) auto

lemma takeWhile_length_mem: "length (takeWhile (\<lambda>x. x \<noteq> c) s) < length s \<longleftrightarrow> c \<in> set s"
proof
  assume less: "length (takeWhile (\<lambda>x. x \<noteq> c) s) < length s"
  from nth_length_takeWhile [OF less] have "s ! length (takeWhile (\<lambda>x. x \<noteq> c) s) = c"
    by simp
  with nth_mem [OF less] show "c \<in> set s" by simp
next
  assume "c \<in> set s"
  then show "length (takeWhile (\<lambda>x. x \<noteq> c) s) < length s"
    by (induction s) auto
qed

lemma bracket_attempt_between:
  "bracket_attempt json_loads opening closing s =
     (case between opening closing s of [] \<Rightarrow> None | b # rest \<Rightarrow> json_loads b)"
proof -
  let ?a = "length (takeWhile (\<lambda>x. x \<noteq> opening) s)"
  let ?k = "length (takeWhile (\<lambda>x. x \<noteq> closing) (rev s))"
  have start: "find_char opening s = (if opening \<in> set s then int ?a else - 1)"
    by (simp add: find_char_def find_from_takeWhile)
  have stop: "rfind_char closing s = (if closing \<in> set s then int (length s) - 1 - int ?k else - 1)"
    by (simp add: rfind_char_def find_from_takeWhile Let_def)
  have a: "?a < length s \<longleftrightarrow> opening \<in> set s" by (rule takeWhile_length_mem)
  have k: "?k < length s \<longleftrightarrow> closing \<in> set s"
    using takeWhile_length_mem [of closing "rev s"] by simp
  show ?thesis
  proof (cases "?a + ?k + 1 < length s")
    case True
    then have mem: "opening \<in> set s" "closing \<in> set s"
      using a k by linarith+
    have "py_slice s (int ?a) (int ?a + (int (length s) - int ?k - int ?a))
        = take (nat (int (length s) - int ?k - int ?a)) (drop (nat (int ?a)) s)"
      using True by (intro py_slice_nat) linarith+
    moreover have "nat (int (length s) - int ?k - int ?a) = length s - (?k + ?a)"
      by linarith
    ultimately have sl: "py_slice s (int ?a) (int (length s) - int ?k)
        = take (length s - (?k + ?a)) (drop ?a s)"
      by simp
    from True mem show ?thesis
      by (simp add: bracket_attempt_def between_def start stop Let_def sl)
  next
    case False
    then have "\<not> (opening \<in> set s \<and> closing \<in> set s \<and> int (length s) - 1 - int ?k > int ?a)"
      by linarith
    with False show ?thesis
      by (auto simp: bracket_attempt_def between_def start stop Let_def)
  qed
qed

lemma between_length: "length (between opening closing s) \<le> 1"
  by (simp add: between_def Let_def)

lemma try_bracket_extract_spec:
  "try_bracket_extract json_loads s = first_loaded json_loads (bracket_candidates s)"
proof -
  obtain xs ys where xs: "between CHR ''{'' CHR ''}'' s = xs" and ys: "between CHR ''['' CHR '']'' s = ys"
    by blast
  have lx: "length xs \<le> 1" using between_length [of "CHR ''{''" "CHR ''}''" s] xs by simp
  have ly: "length ys \<le> 1" using between_length [of "CHR ''[''" "CHR '']''" s] ys by simp
  from lx ly show ?thesis
    unfolding try_bracket_extract_def bracket_attempt_between bracket_candidates_def xs ys
    by (cases xs; cases ys) (auto simp: first_loaded_def split: option.splits)
qed

lemma remove_prefix_loop_spec:
  "remove_prefix_loop json_loads ps s =
     first_loaded json_loads
       (map (\<lambda>p. strip (drop (length p) s)) (filter (\<lambda>p. prefix (lower p) (lower s)) ps))"
  by (induction ps) (auto simp: first_loaded_def split: option.splits)

lemma try_remove_prefix_spec:
  "try_remove_prefix json_loads s = first_loaded json_loads (prefix_candidates s)"
  by (simp add: try_remove_prefix_def remove_prefix_loop_spec prefix_candidates_def
      prefixes_to_remove_def)

lemma parse_json_response_spec:
  "parse_json_response json_loads findall response_text
     = spec_parse_json json_loads findall response_text"
  by (simp add: parse_json_response_def spec_parse_json_def Let_def try_direct_parse_spec
      try_code_block_spec try_bracket_extract_spec try_remove_prefix_spec)

lemma first_loaded_member:
  "first_loaded json_loads cs \<noteq> JNull \<Longrightarrow> \<exists>c\<in>set cs. json_loads c = Some (first_loaded json_loads cs)"
proof (induction cs)
  case Nil
  then show ?case by (simp add: first_loaded_def)
next
  case (Cons c cs)
  then show ?case
    by (cases "json_loads c") (auto simp: first_loaded_def)
qed

lemma first_loaded_none: "\<forall>c\<in>set cs. json_loads c = None \<Longrightarrow> first_loaded json_loads cs = JNull"
  by (induction cs) (auto simp: first_loaded_def)

lemma between_split:
  assumes "opening \<notin> set pre" "closing \<notin> set post"
  shows "between opening closing (pre @ opening # mid @ closing # post) = [opening # mid @ [closing]]"
proof -
  let ?s = "pre @ opening # mid @ closing # post"
  have a: "takeWhile (\<lambda>x. x \<noteq> opening) ?s = pre"
    using assms(1) by (auto simp: takeWhile_tail)
  have "rev ?s = rev post @ closing # (rev mid @ opening # rev pre)" by simp
  then have k: "takeWhile (\<lambda>x. x \<noteq> closing) (rev ?s) = rev post"
    using assms(2) by (auto simp: takeWhile_tail)
  show ?thesis
    unfolding between_def Let_def a k by simp
qed

text \<open>
  C10. \<open>parse_json_response\<close> returns a value for every string, the empty one
  included: every \<open>json.loads\<close> that raises is caught inside its strategy. The result is
  \<open>None\<close> for the empty string. Otherwise the four strategies are tried on the stripped
  text in the order direct parse, fenced code block, first/last bracket extraction,
  prefix stripping, and the result is that of the first one that is not \<open>None\<close>, or
  \<open>None\<close> when there is none. In particular: a text that \<open>json.loads\<close> accepts gives
  its value; when it does not, the first group of the fence patterns that
  \<open>json.loads\<close> accepts gives the value; when neither does, the part from the first
  opening to the last closing brace gives the value when \<open>json.loads\<close> accepts it. A
  result other than \<open>None\<close> is the value that \<open>json.loads\<close> returns for one of the
  candidate strings taken from the text, and the result is \<open>None\<close> when \<open>json.loads\<close>
  raises on all of them.
\<close>

theorem parse_json_response_cascade:
  "parse_json_response json_loads findall response_text =
     (if response_text = [] then JNull
      else case filter (\<lambda>r. r \<noteq> JNull)
                  [first_loaded json_loads [strip response_text],
                   first_loaded json_loads (fence_candidates findall (strip response_text)),
                   first_loaded json_loads (bracket_candidates (strip response_text)),
                   first_loaded json_loads (prefix_candidates (strip response_text))] of
             [] \<Rightarrow> JNull
           | r # rest \<Rightarrow> r)
   \<and> (\<forall>v. response_text \<noteq> [] \<and> json_loads (strip response_text) = Some v \<and> v \<noteq> JNull \<longrightarrow>
          parse_json_response json_loads findall response_text = v)
   \<and> (\<forall>v rest. response_text \<noteq> []
          \<and> (json_loads (strip response_text) = None \<or> json_loads (strip response_text) = Some JNull)
          \<and> List.map_filter json_loads
               (findall JsonObjectFence (strip response_text) @ findall ObjectFence (strip response_text)
                @ findall JsonArrayFence (strip response_text) @ findall ArrayFence (strip response_text))
              = v # rest
          \<and> v \<noteq> JNull \<longrightarrow>
          parse_json_response json_loads findall response_text = v)
   \<and> (\<forall>pre mid post v. response_text \<noteq> []
          \<and> strip response_text = pre @ CHR ''{'' # mid @ CHR ''}'' # post
          \<and> CHR ''{'' \<notin> set pre \<and> CHR ''}'' \<notin> set post
          \<and> json_loads (strip response_text) = None
          \<and> (\<forall>c\<in>set (fence_candidates findall (strip response_text)). json_loads c = None)
          \<and> json_loads (CHR ''{'' # mid @ [CHR ''}'']) = Some v \<and> v \<noteq> JNull \<longrightarrow>
          parse_json_response json_loads findall response_text = v)
   \<and> (parse_json_response json_loads findall response_text \<noteq> JNull \<longrightarrow>
        (\<exists>c\<in>set (strip response_text # fence_candidates findall (strip response_text)
                    @ bracket_candidates (strip response_text)
                    @ prefix_candidates (strip response_text)).
            json_loads c = Some (parse_json_response json_loads findall response_text)))
   \<and> ((\<forall>c\<in>set (strip response_text # fence_candidates findall (strip response_text)
                    @ bracket_candidates (strip response_text)
                    @ prefix_candidates (strip response_text)). json_loads c = None) \<longrightarrow>
        parse_json_response json_loads findall response_text = JNull)"
proof -
  let ?s = "strip response_text"
  let ?p = "parse_json_response json_loads findall response_text"
  let ?d = "first_loaded json_loads [?s]"
  let ?f = "first_loaded json_loads (fence_candidates findall ?s)"
  let ?b = "first_loaded json_loads (bracket_candidates ?s)"
  let ?r = "first_loaded json_loads (prefix_candidates ?s)"
  have cascade: "?p = (if response_text = [] then JNull
      else case filter (\<lambda>r. r \<noteq> JNull) [?d, ?f, ?b, ?r] of [] \<Rightarrow> JNull | r # rest \<Rightarrow> r)"
    by (simp only: parse_json_response_spec spec_parse_json_def Let_def)
  have direct: "?p = v" if "response_text \<noteq> [] \<and> json_loads ?s = Some v \<and> v \<noteq> JNull" for v
  proof -
    from that have "?d = v" by (simp add: first_loaded_def)
    with that show ?thesis unfolding cascade by simp
  qed
  have fence: "?p = v"
    if "response_text \<noteq> []
          \<and> (json_loads ?s = None \<or> json_loads ?s = Some JNull)
          \<and> List.map_filter json_loads
               (findall JsonObjectFence ?s @ findall ObjectFence ?s
                @ findall JsonArrayFence ?s @ findall ArrayFence ?s) = v # rest
          \<and> v \<noteq> JNull" for v rest
  proof -
    from that have d: "?d = JNull" by (auto simp: first_loaded_def)
    from that have "?f = v" by (simp add: first_loaded_def fence_candidates_def)
    with that d show ?thesis unfolding cascade by simp
  qed
  have bracket: "?p = v"
    if "response_text \<noteq> []
          \<and> ?s = pre @ CHR ''{'' # mid @ CHR ''}'' # post
          \<and> CHR ''{'' \<notin> set pre \<and> CHR ''}'' \<notin> set post
          \<and> json_loads ?s = None
          \<and> (\<forall>c\<in>set (fence_candidates findall ?s). json_loads c = None)
          \<and> json_loads (CHR ''{'' # mid @ [CHR ''}'']) = Some v \<and> v \<noteq> JNull" for pre mid post v
  proof -
    from that have ne: "response_text \<noteq> []" and v: "v \<noteq> JNull"
      and shape: "?s = pre @ CHR ''{'' # mid @ CHR ''}'' # post"
      and out: "CHR ''{'' \<notin> set pre" "CHR ''}'' \<notin> set post"
      and nd: "json_loads ?s = None"
      and nf: "\<forall>c\<in>set (fence_candidates findall ?s). json_loads c = None"
      and ld: "json_loads (CHR ''{'' # mid @ [CHR ''}'']) = Some v"
      by blast+
    from nd have d: "?d = JNull" by (simp only: first_loaded_def map_filter_simps) simp
    from nf have f: "?f = JNull" by (rule first_loaded_none)
    have "between CHR ''{'' CHR ''}'' ?s = [CHR ''{'' # mid @ [CHR ''}'']]"
      unfolding shape by (rule between_split [OF out])
    then have "bracket_candidates ?s = (CHR ''{'' # mid @ [CHR ''}'']) # between CHR ''['' CHR '']'' ?s"
      by (simp only: bracket_candidates_def append_Cons append_Nil)
    then have "?b = v" using ld by (simp only: first_loaded_def map_filter_simps) simp
    with ne v d f show ?thesis unfolding cascade by simp
  qed
  have loaded: "\<exists>c\<in>set (?s # fence_candidates findall ?s @ bracket_candidates ?s @ prefix_candidates ?s).
            json_loads c = Some ?p" if "?p \<noteq> JNull"
  proof -
    from that have ne: "response_text \<noteq> []" unfolding cascade by auto
    from that ne have "?p \<in> {?d, ?f, ?b, ?r}"
      unfolding cascade by (auto split: if_splits)
    with that consider "?p = ?d" "?d \<noteq> JNull" | "?p = ?f" "?f \<noteq> JNull"
      | "?p = ?b" "?b \<noteq> JNull" | "?p = ?r" "?r \<noteq> JNull"
      by auto
    then show ?thesis
    proof cases
      case 1
      from first_loaded_member [OF 1(2)] 1(1) show ?thesis by auto
    next
      case 2
      from first_loaded_member [OF 2(2)] 2(1) show ?thesis by auto
    next
      case 3
      from first_loaded_member [OF 3(2)] 3(1) show ?thesis by auto
    next
      case 4
      from first_loaded_member [OF 4(2)] 4(1) show ?thesis by auto
    qed
  qed
  have none: "?p = JNull"
    if "\<forall>c\<in>set (?s # fence_candidates findall ?s @ bracket_candidates ?s @ prefix_candidates ?s).
          json_loads c = None"
  proof (rule ccontr)
    assume "?p \<noteq> JNull"
    from loaded [OF this] that show False by auto
  qed
  from cascade direct fence bracket loaded none show ?thesis by blast
qed

theorem parse_json_response_cascade_witness:
  "parse_json_response sample_loads sample_findall [] = JNull
   \<and> parse_json_response sample_loads sample_findall ''  7  '' = JNum 7
   \<and> sample_loads fenced_text = None
   \<and> fence_candidates sample_findall fenced_text = [''[]'']
   \<and> try_bracket_extract sample_loads fenced_text = JObj []
   \<and> parse_json_response sample_loads sample_findall fenced_text = JArr []
   \<and> parse_json_response sample_loads sample_findall ''Here: {} .'' = JObj []
   \<and> parse_json_response sample_loads sample_findall ''Output: 7'' = JNum 7
   \<and> parse_json_response sample_loads sample_findall ''Output: {'' = JNull"
proof -
  note inst = parse_json_response_cascade [of sample_loads sample_findall]
  have empty: "parse_json_response sample_loads sample_findall [] = JNull"
    using conjunct1 [OF inst [of "[]"]] by simp
  have s7: "strip ''  7  '' = ''7''" by code_simp
  have "''  7  '' \<noteq> [] \<and> sample_loads (strip ''  7  '') = Some (JNum 7) \<and> JNum 7 \<noteq> JNull"
    by (simp add: s7 sample_loads_def)
  with inst [of "''  7  ''"]
  have direct: "parse_json_response sample_loads sample_findall ''  7  '' = JNum 7"
    by blast
  have sf: "strip fenced_text = fenced_text" by code_simp
  have nl: "sample_loads fenced_text = None" by code_simp
  have fc: "fence_candidates sample_findall fenced_text = [''[]'']"
    by (simp add: fence_candidates_def sample_findall_def)
  have br: "try_bracket_extract sample_loads fenced_text = JObj []" by code_simp
  have ne: "fenced_text \<noteq> []" by (simp add: fenced_text_def)
  have "List.map_filter sample_loads
          (sample_findall JsonObjectFence (strip fenced_text) @ sample_findall ObjectFence (strip fenced_text)
           @ sample_findall JsonArrayFence (strip fenced_text) @ sample_findall ArrayFence (strip fenced_text))
        = JArr [] # []"
    by (simp add: sf sample_findall_def sample_loads_def)
  with ne nl sf have "fenced_text \<noteq> []
      \<and> (sample_loads (strip fenced_text) = None \<or> sample_loads (strip fenced_text) = Some JNull)
      \<and> List.map_filter sample_loads
          (sample_findall JsonObjectFence (strip fenced_text) @ sample_findall ObjectFence (strip fenced_text)
           @ sample_findall JsonArrayFence (strip fenced_text) @ sample_findall ArrayFence (strip fenced_text))
        = JArr [] # []
      \<and> JArr [] \<noteq> JNull"
    by simp
  with inst [of fenced_text]
  have fence: "parse_json_response sample_loads sample_findall fenced_text = JArr []"
    by blast
  have sh: "strip ''Here: {} .'' = ''Here: {} .''" by code_simp
  have nofence: "fence_candidates sample_findall ''Here: {} .'' = []"
    by (simp add: fence_candidates_def sample_findall_def fenced_text_def)
  have "''Here: {} .'' \<noteq> []
      \<and> strip ''Here: {} .'' = ''Here: '' @ CHR ''{'' # [] @ CHR ''}'' # '' .''
      \<and> CHR ''{'' \<notin> set ''Here: '' \<and> CHR ''}'' \<notin> set '' .''
      \<and> sample_loads (strip ''Here: {} .'') = None
      \<and> (\<forall>c\<in>set (fence_candidates sample_findall (strip ''Here: {} .'')). sample_loads c = None)
      \<and> sample_loads (CHR ''{'' # [] @ [CHR ''}'']) = Some (JObj []) \<and> JObj [] \<noteq> JNull"
    by (simp add: sh nofence sample_loads_def)
  with inst [of "''Here: {} .''"]
  have bracket: "parse_json_response sample_loads sample_findall ''Here: {} .'' = JObj []"
    by blast
  have pre: "parse_json_response sample_loads sample_findall ''Output: 7'' = JNum 7"
    by code_simp
  have none: "parse_json_response sample_loads sample_findall ''Output: {'' = JNull"
    by code_simp
  from empty direct nl fc br fence bracket pre none show ?thesis by (intro conjI)
qed

section \<open>Properties of the pipeline\<close>

lemma process_and_rank_no_points: "process_and_rank tsr top_k [] found = Inr []"
  by (simp add: process_and_rank_def sort_descending_def py_slice_def)

text \<open>
  C8. When the extraction model is unavailable, \<open>analyze_chunks\<close> returns no points
  and confidence 0, and steps 7 and 8 of the pipeline raise nothing: the run fails only
  where one of the steps 1 to 6 (file, PDF, index, retrieval) fails, and otherwise
  completes with a result whose \<open>key_points\<close> is the empty list.
\<close>

theorem llm_unavailable_fallback:
  assumes "llm (extraction w) = None"
  shows "analyze_chunks (extraction w) chunks_with_scores max_chunks
           = \<lparr> extracted_points = [], confidence = 0 \<rparr>
     \<and> analyze_document cfg w filename vs =
         (case retrieve_stage cfg w filename vs of
            None \<Rightarrow> None
          | Some (Inl e) \<Rightarrow> Some (Inl e)
          | Some (Inr (doc, found, n_pages, md, retrieved, vs3)) \<Rightarrow>
              Some (Inr (\<lparr> res_document_id = doc,
                            res_document_name = filename,
                            res_total_pages = n_pages,
                            res_total_chunks = int (length found),
                            key_points = [],
                            res_processing_time = elapsed w,
                            res_metadata = md \<rparr>, vs3)))
     \<and> (\<forall>res vs'. analyze_document cfg w filename vs = Some (Inr (res, vs')) \<longrightarrow> key_points res = [])"
proof -
  have empty: "analyze_chunks (extraction w) cws n = \<lparr> extracted_points = [], confidence = 0 \<rparr>"
    for cws n
    using assms by (simp add: analyze_chunks_def)
  have run: "analyze_document cfg w filename vs =
         (case retrieve_stage cfg w filename vs of
            None \<Rightarrow> None
          | Some (Inl e) \<Rightarrow> Some (Inl e)
          | Some (Inr (doc, found, n_pages, md, retrieved, vs3)) \<Rightarrow>
              Some (Inr (\<lparr> res_document_id = doc,
                            res_document_name = filename,
                            res_total_pages = n_pages,
                            res_total_chunks = int (length found),
                            key_points = [],
                            res_processing_time = elapsed w,
                            res_metadata = md \<rparr>, vs3)))"
    by (simp add: analyze_document_def empty process_and_rank_no_points Let_def
        split: option.splits sum.splits prod.splits)
  have "key_points res = []" if "analyze_document cfg w filename vs = Some (Inr (res, vs'))" for res vs'
    using that unfolding run by (auto split: option.splits sum.splits prod.splits)
  with empty run show ?thesis by blast
qed

theorem llm_unavailable_fallback_witness:
  "llm (extraction (sample_collaborators
          [Some ''The first page has text.'', Some ''   '', Some ''Third page.''])) = None
   \<and> analyze_chunks (extraction (sample_collaborators
          [Some ''The first page has text.'', Some ''   '', Some ''Third page.'']))
        [(sample_chunk ''abc'' 1 0, 1)] 30
       = \<lparr> extracted_points = [], confidence = 0 \<rparr>
   \<and> (\<exists>res vs'. analyze_document sample_settings
          (sample_collaborators [Some ''The first page has text.'', Some ''   '', Some ''Third page.''])
          ''brief.pdf'' (new_vector_store 384 32 64) = Some (Inr (res, vs'))
        \<and> key_points res = [] \<and> res_total_pages res = 3 \<and> res_total_chunks res = 2)"
proof -
  let ?w = "sample_collaborators [Some ''The first page has text.'', Some ''   '', Some ''Third page.'']"
  let ?res = "\<lparr> res_document_id = ''doc'',
                   res_document_name = ''brief.pdf'',
                   res_total_pages = 3,
                   res_total_chunks = 2,
                   key_points = [],
                   res_processing_time = 0,
                   res_metadata = Some \<lparr> md_document_name = ''brief.pdf'', md_total_pages = 3,
                                         md_total_chunks = 2, md_document_id = ''doc'' \<rparr> \<rparr>"
  let ?vs = "\<lparr> vs_dimension = 384, vs_m = 32, vs_ef_construction = 64, vs_index = Some (2::nat),
                   vs_chunks = [make_chunk ''The first page has text.'' 1 ''doc'' 3 0,
                                make_chunk ''Third page.'' 3 ''doc'' 3 0],
                   vs_doc_id = Some ''doc'' \<rparr>"
  have none: "llm (extraction ?w) = None"
    by (simp add: sample_collaborators_def sample_llm_env_def)
  note inst = llm_unavailable_fallback [OF none, of _ _ sample_settings "''brief.pdf''"
      "new_vector_store 384 32 64"]
  have run: "analyze_document sample_settings ?w ''brief.pdf'' (new_vector_store 384 32 64)
      = Some (Inr (?res, ?vs))"
    by code_simp
  from inst have no_points: "analyze_chunks (extraction ?w) [(sample_chunk ''abc'' 1 0, 1)] 30
       = \<lparr> extracted_points = [], confidence = 0 \<rparr>"
    by blast
  from inst run have "key_points ?res = []" by blast
  with run have "\<exists>res vs'. analyze_document sample_settings ?w ''brief.pdf'' (new_vector_store 384 32 64)
        = Some (Inr (res, vs'))
        \<and> key_points res = [] \<and> res_total_pages res = 3 \<and> res_total_chunks res = 2"
    by (intro exI [of _ ?res] exI [of _ ?vs]) simp
  with none no_points show ?thesis by (intro conjI)
qed

end
